theory Spec2Isabelle
  imports Complex_Main
begin

section \<open>Data model (types.ts)\<close>

text \<open>
  In the simulation a JavaScript number is modelled by a real and its arithmetic is exact.
\<close>

datatype EntityType = Platform | Hazard | Goal | Start | Monster

text \<open>
  A field the interface marks optional (\<open>color?\<close>, \<open>patrolStart?\<close>, \<open>patrolEnd?\<close>,
  \<open>speed?\<close>) is an option: \<open>None\<close> is the omitted field.
\<close>

record LevelEntity =
  e_id :: string
  e_x :: real
  e_y :: real
  e_w :: real
  e_h :: real
  e_type :: EntityType
  e_color :: "string option"
  e_patrolStart :: "real option"
  e_patrolEnd :: "real option"
  e_speed :: "real option"

record PlayerState =
  p_x :: real
  p_y :: real
  p_vx :: real
  p_vy :: real
  p_width :: real
  p_height :: real
  isGrounded :: bool
  facing :: int
  frame :: int

record MonsterState =
  m_id :: string
  m_x :: real
  m_y :: real
  m_w :: real
  m_h :: real
  m_vx :: real
  patrolStart :: real
  patrolEnd :: real
  speed :: real

datatype GameStatus = StartScreen | Playing | Won | Lost

record GameConfig =
  gravity :: real
  friction :: real
  moveSpeed :: real
  maxSpeed :: real
  baseJumpForce :: real
  levelWidth :: real

section \<open>Mutable game state (GameCanvas.tsx)\<close>

definition CONFIG :: GameConfig where
  "CONFIG = \<lparr>gravity = 0.6, friction = 0.85, moveSpeed = 0.8, maxSpeed = 8.0,
              baseJumpForce = - 14, levelWidth = 7000\<rparr>"

record Camera =
  cam_x :: real
  cam_y :: real

text \<open>The canvas element, as far as the simulation reads it: its pixel size.\<close>

record Canvas =
  cv_width :: real
  cv_height :: real

text \<open>
  The refs of the component: \<open>playerRef\<close>, \<open>cameraRef\<close>, \<open>monstersRef\<close>, \<open>keysRef\<close>
  and \<open>frameCountRef\<close>. A key that was never pressed reads \<open>undefined\<close>, which is
  falsy: \<open>False\<close> here.
\<close>

record Game =
  player :: PlayerState
  camera :: Camera
  monsters :: "MonsterState list"
  keys :: "string \<Rightarrow> bool"
  frameCount :: nat

section \<open>Session reset (the effect on gameState)\<close>

text \<open>
  \<open>v || d\<close> on an optional number: the default replaces an omitted field and also the
  falsy number 0.
\<close>

definition js_or :: "real option \<Rightarrow> real \<Rightarrow> real" where
  "js_or v d = (case v of None \<Rightarrow> d | Some r \<Rightarrow> if r = 0 then d else r)"

definition initialPlayer :: "LevelEntity list \<Rightarrow> PlayerState" where
  "initialPlayer level =
     (let startPos = find (\<lambda>e. e_type e = Start) level
      in \<lparr>p_x = (case startPos of Some s \<Rightarrow> e_x s | None \<Rightarrow> 50),
          p_y = (case startPos of Some s \<Rightarrow> e_y s | None \<Rightarrow> 350),
          p_vx = 0, p_vy = 0, p_width = 30, p_height = 50,
          isGrounded = False, facing = 1, frame = 0\<rparr>)"

definition initMonster :: "LevelEntity \<Rightarrow> MonsterState" where
  "initMonster m =
     \<lparr>m_id = e_id m, m_x = e_x m, m_y = e_y m, m_w = e_w m, m_h = e_h m,
      m_vx = js_or (e_speed m) 2,
      patrolStart = js_or (e_patrolStart m) (e_x m - 100),
      patrolEnd = js_or (e_patrolEnd m) (e_x m + 100),
      speed = js_or (e_speed m) 2\<rparr>"

definition initMonsters :: "LevelEntity list \<Rightarrow> MonsterState list" where
  "initMonsters level = map initMonster (filter (\<lambda>e. e_type e = Monster) level)"

definition resetGame :: "GameStatus \<Rightarrow> LevelEntity list \<Rightarrow> Game \<Rightarrow> Game" where
  "resetGame gameState level g =
     (if gameState = Playing
      then g\<lparr>player := initialPlayer level,
             camera := \<lparr>cam_x = 0, cam_y = 0\<rparr>,
             monsters := initMonsters level\<rparr>
      else g)"

section \<open>The simulation step (update)\<close>

subsection \<open>Player physics\<close>

definition horizontalMovement :: "(string \<Rightarrow> bool) \<Rightarrow> PlayerState \<Rightarrow> PlayerState" where
  "horizontalMovement ks p =
     (let p1 = (if ks ''ArrowLeft''
                then p\<lparr>p_vx := p_vx p - moveSpeed CONFIG, facing := - 1\<rparr> else p);
          p2 = (if ks ''ArrowRight''
                then p1\<lparr>p_vx := p_vx p1 + moveSpeed CONFIG, facing := 1\<rparr> else p1)
      in p2)"

definition frictionLimits :: "PlayerState \<Rightarrow> PlayerState" where
  "frictionLimits p =
     (let p1 = p\<lparr>p_vx := p_vx p * friction CONFIG\<rparr>;
          p2 = (if p_vx p1 > maxSpeed CONFIG then p1\<lparr>p_vx := maxSpeed CONFIG\<rparr> else p1);
          p3 = (if p_vx p2 < - maxSpeed CONFIG then p2\<lparr>p_vx := - maxSpeed CONFIG\<rparr> else p2)
      in p3)"

definition gravityJump :: "(string \<Rightarrow> bool) \<Rightarrow> real \<Rightarrow> PlayerState \<Rightarrow> PlayerState" where
  "gravityJump ks jumpModifier p =
     (let p1 = p\<lparr>p_vy := p_vy p + gravity CONFIG\<rparr>
      in if ks ''Space'' \<and> isGrounded p1
         then p1\<lparr>p_vy := baseJumpForce CONFIG * jumpModifier, isGrounded := False\<rparr>
         else p1)"

definition applyVelocity :: "PlayerState \<Rightarrow> PlayerState" where
  "applyVelocity p = p\<lparr>p_x := p_x p + p_vx p, p_y := p_y p + p_vy p\<rparr>"

definition playerPhysics :: "(string \<Rightarrow> bool) \<Rightarrow> real \<Rightarrow> PlayerState \<Rightarrow> PlayerState" where
  "playerPhysics ks jumpModifier p =
     applyVelocity (gravityJump ks jumpModifier (frictionLimits (horizontalMovement ks p)))"

subsection \<open>Monster patrol\<close>

definition monsterLogic :: "MonsterState \<Rightarrow> MonsterState" where
  "monsterLogic m =
     (let m1 = m\<lparr>m_x := m_x m + m_vx m\<rparr>
      in if m_x m1 \<le> patrolStart m1
         then m1\<lparr>m_x := patrolStart m1, m_vx := \<bar>speed m1\<bar>\<rparr>
         else if m_x m1 \<ge> patrolEnd m1
         then m1\<lparr>m_x := patrolEnd m1, m_vx := - \<bar>speed m1\<bar>\<rparr>
         else m1)"

subsection \<open>Collision detection\<close>

definition worldBoundaries :: "PlayerState \<Rightarrow> PlayerState" where
  "worldBoundaries p =
     (let p1 = (if p_x p < 0 then p\<lparr>p_x := 0, p_vx := 0\<rparr> else p);
          p2 = (if p_x p1 > levelWidth CONFIG
                then p1\<lparr>p_x := levelWidth CONFIG, p_vx := 0\<rparr> else p1)
      in p2)"

text \<open>The rectangle test shared by the entity scan and the monster check.\<close>

definition intersects :: "PlayerState \<Rightarrow> real \<Rightarrow> real \<Rightarrow> real \<Rightarrow> real \<Rightarrow> bool" where
  "intersects p rx ry rw rh \<longleftrightarrow>
     p_x p < rx + rw \<and> p_x p + p_width p > rx \<and> p_y p < ry + rh \<and> p_y p + p_height p > ry"

definition hitsEntity :: "PlayerState \<Rightarrow> LevelEntity \<Rightarrow> bool" where
  "hitsEntity p e = intersects p (e_x e) (e_y e) (e_w e) (e_h e)"

definition hitsMonster :: "PlayerState \<Rightarrow> MonsterState \<Rightarrow> bool" where
  "hitsMonster p m = intersects p (m_x m) (m_y m) (m_w m) (m_h m)"

definition overlapX :: "PlayerState \<Rightarrow> LevelEntity \<Rightarrow> real" where
  "overlapX p e =
     (p_width p + e_w e) / 2 - \<bar>(p_x p + p_width p / 2) - (e_x e + e_w e / 2)\<bar>"

definition overlapY :: "PlayerState \<Rightarrow> LevelEntity \<Rightarrow> real" where
  "overlapY p e =
     (p_height p + e_h e) / 2 - \<bar>(p_y p + p_height p / 2) - (e_y e + e_h e / 2)\<bar>"

definition resolvePlatform :: "PlayerState \<Rightarrow> LevelEntity \<Rightarrow> PlayerState" where
  "resolvePlatform p e =
     (if overlapX p e < overlapY p e
      then (if p_vx p > 0 then p\<lparr>p_x := e_x e - p_width p\<rparr>
            else p\<lparr>p_x := e_x e + e_w e\<rparr>)\<lparr>p_vx := 0\<rparr>
      else (if p_vy p > 0
            then p\<lparr>p_y := e_y e - p_height p, isGrounded := True, p_vy := 0\<rparr>
            else p\<lparr>p_y := e_y e + e_h e, p_vy := 0\<rparr>))"

text \<open>
  The loop over the level: the player as the loop leaves it, and the status the loop
  requested when it returned early (\<open>None\<close> when it ran to the end).
\<close>

fun entityCollision :: "PlayerState \<Rightarrow> LevelEntity list \<Rightarrow> PlayerState \<times> GameStatus option" where
  "entityCollision p [] = (p, None)"
| "entityCollision p (entity # rest) =
     (if e_type entity = Monster then entityCollision p rest
      else if hitsEntity p entity
      then (if e_type entity = Hazard then (p, Some Lost)
            else if e_type entity = Goal then (p, Some Won)
            else if e_type entity = Platform
            then entityCollision (resolvePlatform p entity) rest
            else entityCollision p rest)
      else entityCollision p rest)"

definition monsterCollision :: "PlayerState \<Rightarrow> MonsterState list \<Rightarrow> bool" where
  "monsterCollision p ms = list_ex (hitsMonster p) ms"

subsection \<open>Camera\<close>

definition cameraTargetX :: "Canvas \<Rightarrow> PlayerState \<Rightarrow> real" where
  "cameraTargetX canvas p =
     (let t0 = p_x p - cv_width canvas / 2 + p_width p / 2;
          t1 = (if t0 < 0 then 0 else t0);
          t2 = (if t1 > levelWidth CONFIG - cv_width canvas
                then levelWidth CONFIG - cv_width canvas else t1)
      in t2)"

definition cameraTargetY :: "Canvas \<Rightarrow> PlayerState \<Rightarrow> real" where
  "cameraTargetY canvas p =
     (let groundLevel = 600;
          idealCameraY = groundLevel - cv_height canvas + 50;
          t0 = idealCameraY;
          t1 = (if p_y p < groundLevel - cv_height canvas * 0.6
                then p_y p - cv_height canvas * 0.4 else t0);
          t2 = (if p_y p > groundLevel + 100
                then p_y p - cv_height canvas * 0.8 else t1);
          lowestPoint = 800;
          maxCameraY = lowestPoint - cv_height canvas;
          t3 = (if t2 > maxCameraY then maxCameraY else t2)
      in t3)"

definition cameraUpdate :: "Canvas \<Rightarrow> PlayerState \<Rightarrow> Camera \<Rightarrow> Camera" where
  "cameraUpdate canvas p cam =
     (let targetX = cameraTargetX canvas p;
          targetY = cameraTargetY canvas p
      in \<lparr>cam_x = cam_x cam + (targetX - cam_x cam) * 0.1,
          cam_y = cam_y cam + (targetY - cam_y cam) * 0.05\<rparr>)"

subsection \<open>One call of update\<close>

text \<open>
  The arguments are what the closure reads: the props \<open>gameState\<close> and \<open>jumpModifier\<close>,
  the level table \<open>LEVEL_1\<close> (imported from levelData, taken as a parameter), the canvas
  ref (\<open>None\<close> when it is not mounted) and the refs. The result is the refs after the
  call and the argument of \<open>setGameState\<close>, when the call made one.
\<close>

definition update ::
  "GameStatus \<Rightarrow> real \<Rightarrow> LevelEntity list \<Rightarrow> Canvas option \<Rightarrow> Game
     \<Rightarrow> Game \<times> GameStatus option" where
  "update gameState jumpModifier level canvas g =
     (if gameState \<noteq> Playing then (g, None)
      else
        let g1 = g\<lparr>frameCount := frameCount g + 1\<rparr>;
            p1 = playerPhysics (keys g) jumpModifier (player g);
            ms = map monsterLogic (monsters g);
            p2 = worldBoundaries (p1\<lparr>isGrounded := False\<rparr>)
        in if p_y p2 > 800 then (g1\<lparr>player := p2, monsters := ms\<rparr>, Some Lost)
           else
             (case entityCollision p2 level of
                (p3, Some status) \<Rightarrow> (g1\<lparr>player := p3, monsters := ms\<rparr>, Some status)
              | (p3, None) \<Rightarrow>
                  if monsterCollision p3 ms
                  then (g1\<lparr>player := p3, monsters := ms\<rparr>, Some Lost)
                  else
                    (g1\<lparr>player := p3, monsters := ms,
                        camera := (case canvas of
                                     None \<Rightarrow> camera g
                                   | Some c \<Rightarrow> cameraUpdate c p3 (camera g))\<rparr>,
                     None)))"

section \<open>Score calculator (gameLogic.ts, GameContainer.tsx)\<close>

text \<open>
  The score is an integer read off a product, so the rounding of the product counts. A
  JavaScript number is an IEEE 754 binary64 value: a finite one is modelled by the real
  it denotes, and the result of an arithmetic operation is the exact result rounded to
  the nearest double, ties to the even significand, or an infinity when that rounding
  leaves the range. The two zeros are one value here: no result of the score calculator
  tells them apart.
\<close>

datatype number = Finite real | PosInfinity | NegInfinity | NaN

text \<open>Rounding to the nearest integer, ties to the even one.\<close>

definition roundEven :: "real \<Rightarrow> int" where
  "roundEven y =
     (let n = \<lfloor>y\<rfloor>; r = y - of_int n
      in if r < 1 / 2 then n else if r > 1 / 2 then n + 1 else if even n then n else n + 1)"

text \<open>
  The binary exponent of a magnitude: the greatest \<open>e\<close> from -1021 to 1023 with
  \<open>2^e \<le> a\<close>, found by counting down, and -1022 (the exponent of the subnormal
  numbers too) when there is none.
\<close>

fun expo :: "nat \<Rightarrow> real \<Rightarrow> int" where
  "expo 0 a = - 1022"
| "expo (Suc n) a = (if 2 powi (int n - 1021) \<le> a then int n - 1021 else expo n a)"

definition exponent :: "real \<Rightarrow> int" where
  "exponent a = expo 2045 a"

text \<open>The spacing of the doubles around \<open>x\<close>: 53 significant bits.\<close>

definition quantum :: "real \<Rightarrow> real" where
  "quantum x = 2 powi (exponent \<bar>x\<bar> - 52)"

definition roundDouble :: "real \<Rightarrow> real" where
  "roundDouble x = of_int (roundEven (x / quantum x)) * quantum x"

text \<open>Overflow: a rounded result of magnitude \<open>2^1024\<close> or more is an infinity.\<close>

definition toNumber :: "real \<Rightarrow> number" where
  "toNumber r =
     (if r \<ge> 2 powi 1024 then PosInfinity
      else if r \<le> - (2 powi 1024) then NegInfinity
      else Finite r)"

text \<open>
  The number that a real denotes when it is written or passed as a JavaScript number:
  the nearest double. A real that is a double denotes itself.
\<close>

definition js_number :: "real \<Rightarrow> number" where
  "js_number r = toNumber (roundDouble r)"

text \<open>
  The operations of the function body, each with a finite constant as one operand:
  \<open>x * b\<close> and \<open>a - x\<close> round, \<open>Math.floor\<close> and \<open>Math.max\<close> are exact.
\<close>

fun js_mul :: "number \<Rightarrow> real \<Rightarrow> number" where
  "js_mul (Finite a) b = toNumber (roundDouble (a * b))"
| "js_mul PosInfinity b = (if 0 < b then PosInfinity else if b < 0 then NegInfinity else NaN)"
| "js_mul NegInfinity b = (if 0 < b then NegInfinity else if b < 0 then PosInfinity else NaN)"
| "js_mul NaN b = NaN"

fun js_floor :: "number \<Rightarrow> number" where
  "js_floor (Finite r) = Finite (of_int \<lfloor>r\<rfloor>)"
| "js_floor PosInfinity = PosInfinity"
| "js_floor NegInfinity = NegInfinity"
| "js_floor NaN = NaN"

fun js_sub :: "real \<Rightarrow> number \<Rightarrow> number" where
  "js_sub a (Finite r) = toNumber (roundDouble (a - r))"
| "js_sub a PosInfinity = NegInfinity"
| "js_sub a NegInfinity = PosInfinity"
| "js_sub a NaN = NaN"

fun js_max :: "real \<Rightarrow> number \<Rightarrow> number" where
  "js_max a (Finite r) = Finite (max a r)"
| "js_max a PosInfinity = PosInfinity"
| "js_max a NegInfinity = Finite a"
| "js_max a NaN = NaN"

text \<open>The time is the number its argument denotes.\<close>

definition calculatePoints :: "real \<Rightarrow> number" where
  "calculatePoints timeInSeconds =
     (let basePoints = 10000;
          pointsPerSecond = 100;
          points = js_max 1000
                     (js_sub basePoints
                        (js_floor (js_mul (js_number timeInSeconds) pointsPerSecond)))
      in points)"

section \<open>Views of the step used in the statements\<close>

text \<open>
  The player as the entity scan finds it (lines 341 to 387 of GameCanvas.tsx): physics
  applied, \<open>isGrounded\<close> reset, world boundaries enforced.
\<close>

definition scanStart :: "real \<Rightarrow> Game \<Rightarrow> PlayerState" where
  "scanStart jumpModifier g =
     worldBoundaries ((playerPhysics (keys g) jumpModifier (player g))\<lparr>isGrounded := False\<rparr>)"

text \<open>Key maps with one arrow key held down.\<close>

definition heldRight :: "string \<Rightarrow> bool" where
  "heldRight k \<longleftrightarrow> k = ''ArrowRight''"

definition heldLeft :: "string \<Rightarrow> bool" where
  "heldLeft k \<longleftrightarrow> k = ''ArrowLeft''"

definition noKeys :: "string \<Rightarrow> bool" where
  "noKeys k \<longleftrightarrow> False"

section \<open>Concrete scenes\<close>

text \<open>
  A ground platform spanning x from 0 to 200 with its top at y = 500, spikes in the pit
  to its right whose top lies 3 below the platform's, and a ledge far away.
\<close>

definition ground :: LevelEntity where
  "ground = \<lparr>e_id = ''ground'', e_x = 0, e_y = 500, e_w = 200, e_h = 50,
              e_type = Platform, e_color = None, e_patrolStart = None,
              e_patrolEnd = None, e_speed = None\<rparr>"

definition pitSpikes :: LevelEntity where
  "pitSpikes = \<lparr>e_id = ''spikes'', e_x = 200, e_y = 503, e_w = 100, e_h = 47,
                 e_type = Hazard, e_color = None, e_patrolStart = None,
                 e_patrolEnd = None, e_speed = None\<rparr>"

definition ledge :: LevelEntity where
  "ledge = \<lparr>e_id = ''ledge'', e_x = 400, e_y = 300, e_w = 100, e_h = 20,
             e_type = Platform, e_color = None, e_patrolStart = None,
             e_patrolEnd = None, e_speed = None\<rparr>"

text \<open>A goal that reaches over the right end of the ground platform.\<close>

definition goalFlag :: LevelEntity where
  "goalFlag = \<lparr>e_id = ''goal'', e_x = 190, e_y = 440, e_w = 30, e_h = 60,
                e_type = Goal, e_color = None, e_patrolStart = None,
                e_patrolEnd = None, e_speed = None\<rparr>"

definition startMarker :: LevelEntity where
  "startMarker = \<lparr>e_id = ''start'', e_x = 50, e_y = 400, e_w = 0, e_h = 0,
                   e_type = Start, e_color = None, e_patrolStart = None,
                   e_patrolEnd = None, e_speed = None\<rparr>"

text \<open>A monster entity that leaves speed and both patrol bounds out.\<close>

definition bareMonster :: LevelEntity where
  "bareMonster = \<lparr>e_id = ''m1'', e_x = 300, e_y = 460, e_w = 40, e_h = 40,
                   e_type = Monster, e_color = None, e_patrolStart = None,
                   e_patrolEnd = None, e_speed = None\<rparr>"

text \<open>
  A player falling at the right end of the ground platform, its feet 1 above the
  platform's top before the step and 5 below it after the physics.
\<close>

definition edgePlayer :: PlayerState where
  "edgePlayer = \<lparr>p_x = 180, p_y = 449, p_vx = 0, p_vy = 27 / 5, p_width = 30, p_height = 50,
                  isGrounded = False, facing = 1, frame = 0\<rparr>"

definition edgeGame :: Game where
  "edgeGame = \<lparr>player = edgePlayer, camera = \<lparr>cam_x = 10, cam_y = 20\<rparr>, monsters = [],
                keys = noKeys, frameCount = 0\<rparr>"

text \<open>The player as the scan of that step finds it, and as the scan leaves it.\<close>

definition edgeFalling :: PlayerState where
  "edgeFalling = edgePlayer\<lparr>p_y := 455, p_vy := 6\<rparr>"

definition edgeLanded :: PlayerState where
  "edgeLanded = edgePlayer\<lparr>p_y := 450, p_vy := 0, isGrounded := True\<rparr>"

text \<open>
  A player at rest whose right side is 1 deep in the left side of a wall that begins at
  x = 29 and is 100 wide.
\<close>

definition wallPlayer :: PlayerState where
  "wallPlayer = \<lparr>p_x = 0, p_y = 0, p_vx = 0, p_vy = 0, p_width = 30, p_height = 50,
                  isGrounded = False, facing = 1, frame = 0\<rparr>"

definition wall :: LevelEntity where
  "wall = \<lparr>e_id = ''wall'', e_x = 29, e_y = 0, e_w = 100, e_h = 50,
            e_type = Platform, e_color = None, e_patrolStart = None,
            e_patrolEnd = None, e_speed = None\<rparr>"

text \<open>A monster 5 short of the right end of its patrol.\<close>

definition patroller :: MonsterState where
  "patroller = \<lparr>m_id = ''m2'', m_x = 95, m_y = 460, m_w = 40, m_h = 40, m_vx = 2,
                 patrolStart = 0, patrolEnd = 100, speed = 2\<rparr>"

section \<open>Properties of the score calculator\<close>

subsection \<open>Rounding\<close>

lemma roundEven_of_int: "roundEven (of_int n) = n"
  by (simp add: roundEven_def)

lemma roundEven_floor: "\<lfloor>y\<rfloor> \<le> roundEven y \<and> roundEven y \<le> \<lfloor>y\<rfloor> + 1"
  unfolding roundEven_def Let_def by simp

lemma roundEven_same_floor:
  assumes "y \<le> z" "\<lfloor>y\<rfloor> = \<lfloor>z\<rfloor>"
  shows "roundEven y \<le> roundEven z"
proof -
  have "y - of_int \<lfloor>z\<rfloor> \<le> z - of_int \<lfloor>z\<rfloor>" using assms(1) by simp
  then show ?thesis
    unfolding roundEven_def Let_def assms(2) by (simp split: if_splits)
qed

lemma roundEven_mono:
  assumes "y \<le> z"
  shows "roundEven y \<le> roundEven z"
proof (cases "\<lfloor>y\<rfloor> = \<lfloor>z\<rfloor>")
  case True
  with assms show ?thesis by (rule roundEven_same_floor)
next
  case False
  moreover from assms have "\<lfloor>y\<rfloor> \<le> \<lfloor>z\<rfloor>" by (rule floor_mono)
  ultimately have "\<lfloor>y\<rfloor> + 1 \<le> \<lfloor>z\<rfloor>" by simp
  then have "roundEven y \<le> \<lfloor>z\<rfloor>" using roundEven_floor [of y] by simp
  then show ?thesis using roundEven_floor [of z] by simp
qed

lemma roundEven_minus: "roundEven (- y) = - roundEven y"
proof (cases "y = of_int \<lfloor>y\<rfloor>")
  case True
  then have "roundEven y = \<lfloor>y\<rfloor>" by (metis roundEven_of_int)
  moreover from True have "- y = of_int (- \<lfloor>y\<rfloor>)" by simp
  then have "roundEven (- y) = - \<lfloor>y\<rfloor>" by (metis roundEven_of_int)
  ultimately show ?thesis by simp
next
  case False
  then have "\<lceil>y\<rceil> = \<lfloor>y\<rfloor> + 1" by (simp add: ceiling_altdef)
  then have fl: "\<lfloor>- y\<rfloor> = - \<lfloor>y\<rfloor> - 1" by (simp add: ceiling_def)
  have pos: "0 < y - of_int \<lfloor>y\<rfloor>" using False by (simp add: less_le)
  have ev: "even (- \<lfloor>y\<rfloor> - 1) \<longleftrightarrow> odd \<lfloor>y\<rfloor>" by simp
  show ?thesis
    unfolding roundEven_def Let_def fl ev using pos by (simp split: if_splits)
qed

lemma roundEven_nonneg: "0 \<le> y \<Longrightarrow> 0 \<le> roundEven y"
  using roundEven_mono [of 0 y] roundEven_of_int [of 0] by simp

lemma expo_lower: "- 1022 \<le> expo n a"
  by (induction n) auto

lemma expo_upper: "expo n a \<le> int n - 1022"
proof (induction n)
  case 0
  show ?case by simp
next
  case (Suc n)
  then show ?case by auto
qed

lemma expo_mono: "a \<le> b \<Longrightarrow> expo n a \<le> expo n b"
proof (induction n)
  case 0
  show ?case by simp
next
  case (Suc n)
  show ?case
  proof (cases "2 powi (int n - 1021) \<le> a")
    case True
    with Suc.prems have "2 powi (int n - 1021) \<le> b" by simp
    with True show ?thesis by simp
  next
    case False
    have "expo n a \<le> int n - 1021" using expo_upper [of n a] by simp
    with False Suc show ?thesis by simp
  qed
qed

lemma expo_le: "- 1022 < expo n a \<Longrightarrow> 2 powi (expo n a) \<le> a"
  by (induction n) (auto split: if_splits)

lemma expo_gt: "expo n a < int n - 1022 \<Longrightarrow> a < 2 powi (expo n a + 1)"
proof (induction n)
  case 0
  then show ?case by simp
next
  case (Suc n)
  show ?case
  proof (cases "2 powi (int n - 1021) \<le> a")
    case True
    with Suc.prems show ?thesis by simp
  next
    case False
    then have eq: "expo (Suc n) a = expo n a" by simp
    show ?thesis
    proof (cases "expo n a < int n - 1022")
      case True
      with Suc.IH eq show ?thesis by simp
    next
      case top: False
      with expo_upper [of n a] have "expo n a = int n - 1022" by simp
      with False eq show ?thesis by simp
    qed
  qed
qed

lemma exponent_range: "- 1022 \<le> exponent a \<and> exponent a \<le> 1023"
  using expo_lower [of 2045 a] expo_upper [of 2045 a] by (simp add: exponent_def)

lemma exponent_mono: "a \<le> b \<Longrightarrow> exponent a \<le> exponent b"
  by (simp add: exponent_def expo_mono)

lemma exponent_le: "- 1022 < exponent a \<Longrightarrow> 2 powi (exponent a) \<le> a"
  unfolding exponent_def by (rule expo_le)

lemma exponent_gt: "exponent a < 1023 \<Longrightarrow> a < 2 powi (exponent a + 1)"
  unfolding exponent_def using expo_gt [of 2045 a] by simp

lemma exponent_eq:
  assumes "2 powi e \<le> a" "a < 2 powi (e + 1)" "- 1022 \<le> e" "e \<le> 1023"
  shows "exponent a = e"
proof (rule antisym)
  show "exponent a \<le> e"
  proof (rule ccontr)
    assume "\<not> exponent a \<le> e"
    then have gt: "e + 1 \<le> exponent a" by simp
    with assms(3) have "2 powi (exponent a) \<le> a" by (intro exponent_le) simp
    moreover have "(2::real) powi (e + 1) \<le> 2 powi (exponent a)"
      using gt by (intro power_int_increasing) simp_all
    ultimately show False using assms(2) by simp
  qed
  show "e \<le> exponent a"
  proof (rule ccontr)
    assume "\<not> e \<le> exponent a"
    then have lt: "exponent a + 1 \<le> e" by simp
    with assms(4) have "a < 2 powi (exponent a + 1)" by (intro exponent_gt) simp
    moreover have "(2::real) powi (exponent a + 1) \<le> 2 powi e"
      using lt by (intro power_int_increasing) simp_all
    ultimately show False using assms(1) by simp
  qed
qed

lemma exponent_small: "a < 2 powi (- 1021) \<Longrightarrow> exponent a = - 1022"
proof (rule ccontr)
  assume a: "a < 2 powi (- 1021)" and "exponent a \<noteq> - 1022"
  with exponent_range [of a] have gt: "- 1021 \<le> exponent a" by simp
  then have "2 powi (exponent a) \<le> a" by (intro exponent_le) simp
  moreover have "(2::real) powi (- 1021) \<le> 2 powi (exponent a)"
    using gt by (intro power_int_increasing) simp_all
  ultimately show False using a by simp
qed

lemma exponent_below:
  assumes "a < 2 powi k" "- 1022 < k"
  shows "exponent a < k"
proof (rule ccontr)
  assume "\<not> exponent a < k"
  then have ge: "k \<le> exponent a" by simp
  with assms(2) have "2 powi (exponent a) \<le> a" by (intro exponent_le) simp
  moreover have "(2::real) powi k \<le> 2 powi (exponent a)"
    using ge by (intro power_int_increasing) simp_all
  ultimately show False using assms(1) by simp
qed

lemma quantum_pos: "0 < quantum x"
  by (simp add: quantum_def)

lemma quantum_minus: "quantum (- x) = quantum x"
  by (simp add: quantum_def)

lemma roundDouble_minus: "roundDouble (- x) = - roundDouble x"
  by (simp add: roundDouble_def quantum_minus roundEven_minus)

lemma roundDouble_nonneg: "0 \<le> x \<Longrightarrow> 0 \<le> roundDouble x"
  using quantum_pos [of x] by (simp add: roundDouble_def roundEven_nonneg)

text \<open>Within a binade the quotient is below \<open>2^53\<close>; above the smallest one it is at least \<open>2^52\<close>.\<close>

lemma quotient_upper:
  assumes "0 \<le> x" "exponent x < 1023"
  shows "roundDouble x \<le> 2 powi (exponent x + 1)"
proof -
  let ?q = "quantum x"
  have q: "?q = 2 powi (exponent x - 52)" using assms(1) by (simp add: quantum_def)
  have "x < 2 powi (exponent x + 1)" using assms(2) by (rule exponent_gt)
  also have "(2::real) powi (exponent x + 1) = 2 ^ 53 * ?q"
    unfolding q by (simp add: power_int_add power_int_diff)
  finally have "x / ?q \<le> of_int (2 ^ 53)"
    using quantum_pos [of x] by (simp add: field_simps)
  then have "roundEven (x / ?q) \<le> 2 ^ 53"
    using roundEven_mono [of "x / ?q" "of_int (2 ^ 53)"] by (simp only: roundEven_of_int)
  then have "of_int (roundEven (x / ?q)) \<le> (2 ^ 53 :: real)"
    by (metis of_int_le_iff of_int_numeral of_int_power)
  then have "roundDouble x \<le> 2 ^ 53 * ?q"
    unfolding roundDouble_def using quantum_pos [of x] by simp
  also have "2 ^ 53 * ?q = 2 powi (exponent x + 1)"
    unfolding q by (simp add: power_int_add power_int_diff)
  finally show ?thesis .
qed

lemma quotient_lower:
  assumes "0 \<le> x" "- 1022 < exponent x"
  shows "2 powi (exponent x) \<le> roundDouble x"
proof -
  let ?q = "quantum x"
  have q: "?q = 2 powi (exponent x - 52)" using assms(1) by (simp add: quantum_def)
  have eq: "(2::real) powi (exponent x) = 2 ^ 52 * ?q"
    unfolding q by (simp add: power_int_diff)
  have "2 powi (exponent x) \<le> x" using assms(2) by (rule exponent_le)
  then have "of_int (2 ^ 52) \<le> x / ?q"
    unfolding eq using quantum_pos [of x] by (simp add: field_simps)
  then have "2 ^ 52 \<le> roundEven (x / ?q)"
    using roundEven_mono [of "of_int (2 ^ 52)" "x / ?q"] by (simp only: roundEven_of_int)
  then have "(2 ^ 52 :: real) \<le> of_int (roundEven (x / ?q))"
    by (metis of_int_le_iff of_int_numeral of_int_power)
  then have "2 ^ 52 * ?q \<le> roundDouble x"
    unfolding roundDouble_def using quantum_pos [of x] by simp
  then show ?thesis unfolding eq .
qed

lemma roundDouble_mono_nonneg:
  assumes "0 \<le> x" "x \<le> y"
  shows "roundDouble x \<le> roundDouble y"
proof (cases "exponent x = exponent y")
  case True
  with assms have q: "quantum x = quantum y" by (simp add: quantum_def)
  have "x / quantum y \<le> y / quantum y"
    using assms(2) quantum_pos [of y] by (simp add: divide_right_mono)
  then have "roundEven (x / quantum y) \<le> roundEven (y / quantum y)" by (rule roundEven_mono)
  then show ?thesis
    unfolding roundDouble_def q using quantum_pos [of y] by simp
next
  case False
  with exponent_mono [OF assms(2)] have lt: "exponent x + 1 \<le> exponent y" by simp
  with exponent_range [of y] have "exponent x < 1023" by simp
  with assms(1) have "roundDouble x \<le> 2 powi (exponent x + 1)" by (rule quotient_upper)
  also have "(2::real) powi (exponent x + 1) \<le> 2 powi (exponent y)"
    using lt by (intro power_int_increasing) simp_all
  also have "\<dots> \<le> roundDouble y"
    using assms lt exponent_range [of x] by (intro quotient_lower) simp_all
  finally show ?thesis .
qed

lemma roundDouble_mono:
  assumes "x \<le> y"
  shows "roundDouble x \<le> roundDouble y"
proof (cases "0 \<le> x")
  case True
  then show ?thesis using assms by (rule roundDouble_mono_nonneg)
next
  case neg: False
  show ?thesis
  proof (cases "0 \<le> y")
    case True
    from neg have "0 \<le> roundDouble (- x)" by (intro roundDouble_nonneg) simp
    then have "roundDouble x \<le> 0" by (simp add: roundDouble_minus)
    also have "0 \<le> roundDouble y" using True by (rule roundDouble_nonneg)
    finally show ?thesis .
  next
    case False
    then have "0 \<le> - y" "- y \<le> - x" using assms by simp_all
    then have "roundDouble (- y) \<le> roundDouble (- x)" by (rule roundDouble_mono_nonneg)
    then show ?thesis by (simp add: roundDouble_minus)
  qed
qed

text \<open>Integers below \<open>2^53\<close> in absolute value are doubles.\<close>

lemma roundDouble_nat:
  assumes "of_int n < (2 ^ 53 :: real)" "0 \<le> n"
  shows "roundDouble (of_int n) = of_int n"
proof -
  let ?E = "exponent (of_int n)"
  have "of_int n < (2::real) powi 53" using assms(1) by simp
  then have "?E < 53" by (rule exponent_below) simp
  then obtain k where k: "52 - ?E = int k"
    by (metis diff_ge_0_iff_ge less_le_not_le nonneg_int_cases zle_add1_eq_le add.commute
        diff_add_cancel numeral_Bit1 numeral_code(2) one_add_one)
  have q: "quantum (of_int n) = 1 / 2 ^ k"
  proof -
    have "?E - 52 = - int k" using k by simp
    then show ?thesis using assms(2) by (simp add: quantum_def power_int_minus_divide)
  qed
  have "of_int n / quantum (of_int n) = of_int (n * 2 ^ k)" unfolding q by simp
  then have "roundEven (of_int n / quantum (of_int n)) = n * 2 ^ k"
    by (simp only: roundEven_of_int)
  then show ?thesis unfolding roundDouble_def by (simp add: q)
qed

lemma roundDouble_int:
  assumes "\<bar>of_int n\<bar> < (2 ^ 53 :: real)"
  shows "roundDouble (of_int n) = of_int n"
proof (cases "0 \<le> n")
  case True
  with assms show ?thesis by (intro roundDouble_nat) simp_all
next
  case False
  with assms have "roundDouble (of_int (- n)) = of_int (- n)" by (intro roundDouble_nat) simp_all
  then show ?thesis by (simp add: roundDouble_minus)
qed

lemma toNumber_finite:
  "- (2 powi 1024) < r \<Longrightarrow> r < 2 powi 1024 \<Longrightarrow> toNumber r = Finite r"
  by (simp add: toNumber_def)

subsection \<open>The score of a double\<close>

text \<open>The body of the function on a finite time \<open>d\<close>.\<close>

lemma js_max_late:
  assumes "r \<le> 1000"
  shows "js_max 1000 (toNumber r) = Finite 1000"
  using assms by (simp add: toNumber_def max_def)

lemma body_late:
  assumes "9000 \<le> roundDouble (d * 100)"
  shows "js_max 1000 (js_sub 10000 (js_floor (js_mul (Finite d) 100))) = Finite 1000"
proof (cases "roundDouble (d * 100) \<ge> 2 powi 1024")
  case True
  then show ?thesis by (simp add: toNumber_def)
next
  case False
  let ?x = "roundDouble (d * 100)"
  from False assms have fin: "toNumber ?x = Finite ?x" by (intro toNumber_finite) simp_all
  have "(9000::int) \<le> \<lfloor>?x\<rfloor>" using assms by (simp add: le_floor_iff)
  then have "of_int (10000 - \<lfloor>?x\<rfloor>) \<le> (of_int 1000 :: real)"
    by simp
  then have "roundDouble (of_int (10000 - \<lfloor>?x\<rfloor>)) \<le> roundDouble (of_int 1000)"
    by (rule roundDouble_mono)
  also have "roundDouble (of_int 1000) = 1000"
    using roundDouble_int [of 1000] by simp
  finally have "js_max 1000 (toNumber (roundDouble (of_int (10000 - \<lfloor>?x\<rfloor>)))) = Finite 1000"
    by (rule js_max_late)
  then show ?thesis by (simp add: fin)
qed

lemma body_early:
  assumes "- (100 * 2 ^ 46) \<le> roundDouble (d * 100)" "roundDouble (d * 100) < 9000"
  shows "js_max 1000 (js_sub 10000 (js_floor (js_mul (Finite d) 100)))
           = Finite (of_int (10000 - \<lfloor>roundDouble (d * 100)\<rfloor>))"
    and "1000 < 10000 - \<lfloor>roundDouble (d * 100)\<rfloor>"
proof -
  let ?x = "roundDouble (d * 100)"
  let ?d = "10000 - \<lfloor>?x\<rfloor>"
  from assms have fin: "toNumber ?x = Finite ?x" by (intro toNumber_finite) simp_all
  have lo: "- (100 * 2 ^ 46) \<le> \<lfloor>?x\<rfloor>" using assms(1) by (simp add: le_floor_iff)
  have hi: "\<lfloor>?x\<rfloor> < 9000" using assms(2) by (simp add: floor_less_iff)
  from hi show "1000 < ?d" by simp
  have "\<bar>?d\<bar> < 9007199254740992"
  proof -
    from lo have "- 7036874417766400 \<le> \<lfloor>?x\<rfloor>" by (simp only: power_numeral) simp
    with hi show ?thesis by linarith
  qed
  then have "\<bar>?d\<bar> < 2 ^ 53" by simp
  then have small: "\<bar>of_int ?d\<bar> < (2 ^ 53 :: real)"
    by (metis of_int_abs of_int_less_iff of_int_numeral of_int_power)
  then have exact: "roundDouble (of_int ?d) = of_int ?d" by (rule roundDouble_int)
  have "(2 ^ 53 :: real) < 2 powi 1024" by simp
  with small have "- (2 powi 1024) < (of_int ?d :: real)" "(of_int ?d :: real) < 2 powi 1024"
    by linarith+
  then have "toNumber (of_int ?d) = Finite (of_int ?d)" by (rule toNumber_finite)
  moreover have "max 1000 (of_int ?d :: real) = of_int ?d" using hi by simp
  ultimately show "js_max 1000 (js_sub 10000 (js_floor (js_mul (Finite d) 100)))
      = Finite (of_int ?d)"
    using exact by (simp add: fin)
qed

lemma product_lower:
  assumes "- (2 ^ 46) \<le> d"
  shows "- (100 * 2 ^ 46) \<le> roundDouble (d * 100)"
proof -
  have "roundDouble (of_int (- (100 * 2 ^ 46))) = of_int (- (100 * 2 ^ 46))"
    by (rule roundDouble_int) simp
  moreover have "of_int (- (100 * 2 ^ 46)) \<le> d * 100" using assms by simp
  then have "roundDouble (of_int (- (100 * 2 ^ 46))) \<le> roundDouble (d * 100)"
    by (rule roundDouble_mono)
  ultimately show ?thesis by simp
qed

lemma body_formula:
  assumes "- (2 ^ 46) \<le> d"
  shows "js_max 1000 (js_sub 10000 (js_floor (js_mul (Finite d) 100)))
           = Finite (of_int (max 1000 (10000 - \<lfloor>roundDouble (d * 100)\<rfloor>)))"
proof (cases "9000 \<le> roundDouble (d * 100)")
  case True
  then have "(9000::int) \<le> \<lfloor>roundDouble (d * 100)\<rfloor>" by (simp add: le_floor_iff)
  then have "max 1000 (10000 - \<lfloor>roundDouble (d * 100)\<rfloor>) = 1000" by simp
  with body_late [OF True] show ?thesis by simp
next
  case False
  then have lt: "roundDouble (d * 100) < 9000" by simp
  note early = body_early [OF product_lower [OF assms] lt]
  from early(2) have "max 1000 (10000 - \<lfloor>roundDouble (d * 100)\<rfloor>)
      = 10000 - \<lfloor>roundDouble (d * 100)\<rfloor>" by simp
  with early(1) show ?thesis by simp
qed

subsection \<open>The score of the time an argument denotes\<close>

lemma argument_lower:
  assumes "- (2 ^ 46) \<le> t"
  shows "- (2 ^ 46) \<le> roundDouble t"
proof -
  have "roundDouble (of_int (- (2 ^ 46))) = of_int (- (2 ^ 46))"
    by (rule roundDouble_int) simp
  moreover have "of_int (- (2 ^ 46)) \<le> t" using assms by simp
  then have "roundDouble (of_int (- (2 ^ 46))) \<le> roundDouble t"
    by (rule roundDouble_mono)
  ultimately show ?thesis by simp
qed

lemma product_late: "90 \<le> d \<Longrightarrow> 9000 \<le> roundDouble (d * 100)"
proof -
  assume "90 \<le> d"
  then have "of_int 9000 \<le> d * 100" by simp
  then have "roundDouble (of_int 9000) \<le> roundDouble (d * 100)" by (rule roundDouble_mono)
  moreover have "roundDouble (of_int 9000) = of_int 9000" by (rule roundDouble_int) simp
  ultimately show ?thesis by simp
qed

lemma argument_late: "90 \<le> t \<Longrightarrow> 90 \<le> roundDouble t"
proof -
  assume "90 \<le> t"
  then have "of_int 90 \<le> t" by simp
  then have "roundDouble (of_int 90) \<le> roundDouble t" by (rule roundDouble_mono)
  moreover have "roundDouble (of_int 90) = of_int 90" by (rule roundDouble_int) simp
  ultimately show ?thesis by simp
qed

lemma calculatePoints_formula:
  assumes "- (2 ^ 46) \<le> t"
  shows "calculatePoints t
           = Finite (of_int (max 1000 (10000 - \<lfloor>roundDouble (roundDouble t * 100)\<rfloor>)))"
proof (cases "roundDouble t \<ge> 2 powi 1024")
  case True
  then have "(90 :: real) \<le> roundDouble t" by simp
  then have "9000 \<le> roundDouble (roundDouble t * 100)" by (rule product_late)
  then have "(9000::int) \<le> \<lfloor>roundDouble (roundDouble t * 100)\<rfloor>" by (simp add: le_floor_iff)
  then have "max 1000 (10000 - \<lfloor>roundDouble (roundDouble t * 100)\<rfloor>) = 1000" by simp
  moreover from True have "calculatePoints t = Finite 1000"
    by (simp add: calculatePoints_def js_number_def toNumber_def)
  ultimately show ?thesis by simp
next
  case False
  note lower = argument_lower [OF assms]
  have "(- (2 powi 1024) :: real) < - (2 ^ 46)" by simp
  with lower have "- (2 powi 1024) < roundDouble t" by linarith
  with False have "js_number t = Finite (roundDouble t)"
    unfolding js_number_def by (intro toNumber_finite) simp_all
  then have "calculatePoints t
      = js_max 1000 (js_sub 10000 (js_floor (js_mul (Finite (roundDouble t)) 100)))"
    by (simp add: calculatePoints_def)
  with body_formula [OF lower] show ?thesis by simp
qed

lemma calculatePoints_late:
  assumes "90 \<le> t"
  shows "calculatePoints t = Finite 1000"
proof -
  from assms have "- (2 ^ 46) \<le> t" by simp
  note formula = calculatePoints_formula [OF this]
  from assms have "9000 \<le> roundDouble (roundDouble t * 100)"
    by (intro product_late argument_late)
  then have "(9000::int) \<le> \<lfloor>roundDouble (roundDouble t * 100)\<rfloor>" by (simp add: le_floor_iff)
  then have "max 1000 (10000 - \<lfloor>roundDouble (roundDouble t * 100)\<rfloor>) = 1000" by simp
  with formula show ?thesis by simp
qed

lemma product_mono:
  "s \<le> t \<Longrightarrow> \<lfloor>roundDouble (roundDouble s * 100)\<rfloor> \<le> \<lfloor>roundDouble (roundDouble t * 100)\<rfloor>"
  by (intro floor_mono roundDouble_mono) (simp add: roundDouble_mono)

text \<open>The double written \<open>1.9\<close> and its product with 100.\<close>

lemma double_1_9: "roundDouble (19 / 10) = 8556839292003942 / 2 ^ 52"
proof -
  have "exponent (19 / 10) = 0" by (rule exponent_eq) simp_all
  then have q: "quantum (19 / 10) = 1 / 2 ^ 52"
    by (simp add: quantum_def power_int_minus_divide)
  show ?thesis unfolding roundDouble_def q by (simp add: roundEven_def)
qed

lemma double_1_9_times_100: "roundDouble (8556839292003942 / 2 ^ 52 * 100) = 190"
proof -
  have "exponent (8556839292003942 / 2 ^ 52 * 100) = 7" by (rule exponent_eq) simp_all
  then have q: "quantum (8556839292003942 / 2 ^ 52 * 100) = 1 / 2 ^ 45"
    by (simp add: quantum_def power_int_minus_divide)
  show ?thesis unfolding roundDouble_def q by (simp add: roundEven_def)
qed

lemma double_1_9_exact: "roundDouble (8556839292003942 / 2 ^ 52) = 8556839292003942 / 2 ^ 52"
proof -
  have "exponent (8556839292003942 / 2 ^ 52) = 0" by (rule exponent_eq) simp_all
  then have q: "quantum (8556839292003942 / 2 ^ 52) = 1 / 2 ^ 52"
    by (simp add: quantum_def power_int_minus_divide)
  show ?thesis unfolding roundDouble_def q by (simp add: roundEven_def)
qed

text \<open>
  Claim C1, as the spec states it, gives the score as \<open>max 1000 (10000 - floor (t * 100))\<close>
  with the exact product. The code floors the rounded product: for the double written
  1.9, which is \<open>8556839292003942 / 2^52\<close> and lies below 1.9, the exact product lies
  below 190 and its floor is 189, while the rounded product is 190. The code returns
  9810 where the formula gives 9811.
\<close>

theorem calculatePoints_counterexample:
  "roundDouble 1.9 = 8556839292003942 / 2 ^ 52
   \<and> roundDouble (8556839292003942 / 2 ^ 52) = 8556839292003942 / 2 ^ 52
   \<and> calculatePoints (8556839292003942 / 2 ^ 52) = Finite 9810
   \<and> max 1000 (10000 - \<lfloor>8556839292003942 / 2 ^ 52 * (100 :: real)\<rfloor>) = 9811"
proof -
  have "calculatePoints (8556839292003942 / 2 ^ 52)
      = Finite (of_int (max 1000
          (10000 - \<lfloor>roundDouble (roundDouble (8556839292003942 / 2 ^ 52) * 100)\<rfloor>)))"
    by (rule calculatePoints_formula) simp
  then have "calculatePoints (8556839292003942 / 2 ^ 52) = Finite 9810"
    unfolding double_1_9_exact double_1_9_times_100 by simp
  moreover have "max 1000 (10000 - \<lfloor>8556839292003942 / 2 ^ 52 * (100 :: real)\<rfloor>) = 9811"
    by simp
  ultimately show ?thesis
    using double_1_9 double_1_9_exact by (intro conjI)
qed

text \<open>
  Claim C1, amended. For every time \<open>t\<close> that is a double, from \<open>-2^46\<close> on, the score
  is \<open>max 1000 (10000 - floor p)\<close> where \<open>p\<close> is the product \<open>t * 100\<close> rounded to the
  nearest double. It is 10000 at 0, 1000 at 90 and at every later time, 9810 at 1.9, it
  never increases as the time grows from 0 on, and nothing bounds it from above: at
  \<open>-10\<close> it is 11000.
\<close>

theorem calculatePoints_spec:
  "(- (2 ^ 46) \<le> t \<and> roundDouble t = t \<longrightarrow>
      calculatePoints t = Finite (of_int (max 1000 (10000 - \<lfloor>roundDouble (t * 100)\<rfloor>))))
   \<and> calculatePoints 0 = Finite 10000
   \<and> calculatePoints 90 = Finite 1000
   \<and> (90 \<le> t \<longrightarrow> calculatePoints t = Finite 1000)
   \<and> calculatePoints 1.9 = Finite 9810
   \<and> (0 \<le> s \<and> s \<le> t \<longrightarrow>
        (\<exists>a b. calculatePoints s = Finite (of_int a) \<and> calculatePoints t = Finite (of_int b)
           \<and> b \<le> a))
   \<and> calculatePoints (- 10) = Finite 11000"
proof -
  have formula: "calculatePoints t
      = Finite (of_int (max 1000 (10000 - \<lfloor>roundDouble (t * 100)\<rfloor>)))"
    if "- (2 ^ 46) \<le> t \<and> roundDouble t = t"
    using calculatePoints_formula [of t] that by simp
  have zero: "calculatePoints 0 = Finite 10000"
    using calculatePoints_formula [of 0] roundDouble_int [of 0] by simp
  have literal: "calculatePoints 1.9 = Finite 9810"
    using calculatePoints_formula [of "19 / 10"]
    unfolding double_1_9 double_1_9_times_100 by simp
  have minus: "calculatePoints (- 10) = Finite 11000"
    using calculatePoints_formula [of "- 10"] roundDouble_int [of "- 10"]
      roundDouble_int [of "- 1000"] by simp
  have mono: "\<exists>a b. calculatePoints s = Finite (of_int a) \<and> calculatePoints t = Finite (of_int b)
      \<and> b \<le> a" if "0 \<le> s \<and> s \<le> t"
  proof -
    let ?a = "max 1000 (10000 - \<lfloor>roundDouble (roundDouble s * 100)\<rfloor>)"
    let ?b = "max 1000 (10000 - \<lfloor>roundDouble (roundDouble t * 100)\<rfloor>)"
    from that have "calculatePoints s = Finite (of_int ?a)" "calculatePoints t = Finite (of_int ?b)"
      by (intro calculatePoints_formula; simp)+
    moreover have "?b \<le> ?a" using product_mono [of s t] that by simp
    ultimately show ?thesis by blast
  qed
  have c1: "- (2 ^ 46) \<le> t \<and> roundDouble t = t \<longrightarrow>
      calculatePoints t = Finite (of_int (max 1000 (10000 - \<lfloor>roundDouble (t * 100)\<rfloor>)))"
    by (rule impI) (rule formula)
  have c3: "calculatePoints 90 = Finite 1000"
    by (rule calculatePoints_late) simp
  have c4: "90 \<le> t \<longrightarrow> calculatePoints t = Finite 1000"
    by (rule impI) (rule calculatePoints_late)
  have c6: "0 \<le> s \<and> s \<le> t \<longrightarrow>
      (\<exists>a b. calculatePoints s = Finite (of_int a) \<and> calculatePoints t = Finite (of_int b)
         \<and> b \<le> a)"
    by (rule impI) (rule mono)
  show ?thesis by (intro conjI) (rule c1 zero c3 c4 literal c6 minus)+
qed

theorem calculatePoints_spec_witness:
  "- (2 ^ 46) \<le> (100 :: real) \<and> roundDouble 100 = 100 \<and> (90 :: real) \<le> 100
   \<and> calculatePoints 100 = Finite 1000
   \<and> calculatePoints 100 = Finite (of_int (max 1000 (10000 - \<lfloor>roundDouble (100 * 100)\<rfloor>)))
   \<and> (0 :: real) \<le> 10 \<and> (10 :: real) \<le> 100
   \<and> (\<exists>a b. calculatePoints 10 = Finite (of_int a) \<and> calculatePoints 100 = Finite (of_int b)
        \<and> b \<le> a)"
proof -
  note spec = calculatePoints_spec [of 100 10]
  have range: "- (2 ^ 46) \<le> (100 :: real)" "(90 :: real) \<le> 100" "(0 :: real) \<le> 10"
    "(10 :: real) \<le> 100"
    by simp_all
  have double: "roundDouble 100 = 100" using roundDouble_int [of 100] by simp
  from range(1) double have "- (2 ^ 46) \<le> (100 :: real) \<and> roundDouble 100 = 100" ..
  with spec [THEN conjunct1]
  have formula: "calculatePoints 100
      = Finite (of_int (max 1000 (10000 - \<lfloor>roundDouble (100 * 100)\<rfloor>)))"
    by (rule mp)
  from spec [THEN conjunct2, THEN conjunct2, THEN conjunct2, THEN conjunct1] range(2)
  have late: "calculatePoints 100 = Finite 1000" by (rule mp)
  from range(3,4) have "(0 :: real) \<le> 10 \<and> (10 :: real) \<le> 100" ..
  with spec [THEN conjunct2, THEN conjunct2, THEN conjunct2, THEN conjunct2, THEN conjunct2,
      THEN conjunct1]
  have mono: "\<exists>a b. calculatePoints 10 = Finite (of_int a) \<and> calculatePoints 100 = Finite (of_int b)
      \<and> b \<le> a"
    by (rule mp)
  show ?thesis by (intro conjI) (rule range double formula late mono)+
qed

section \<open>Shared facts about the step\<close>

lemma scanStart_not_grounded: "\<not> isGrounded (scanStart jm g)"
  by (simp add: scanStart_def worldBoundaries_def Let_def)

lemma update_player:
  "player (fst (update Playing jm level canvas g)) =
     (if p_y (scanStart jm g) > 800 then scanStart jm g
      else fst (entityCollision (scanStart jm g) level))"
  by (simp add: update_def scanStart_def Let_def split: prod.splits option.splits)

lemma update_status:
  "snd (update Playing jm level canvas g) =
     (if p_y (scanStart jm g) > 800 then Some Lost
      else case entityCollision (scanStart jm g) level of
             (q, Some s) \<Rightarrow> Some s
           | (q, None) \<Rightarrow>
               if monsterCollision q (map monsterLogic (monsters g)) then Some Lost else None)"
  by (simp add: update_def scanStart_def Let_def split: prod.splits option.splits)

lemma update_monsters:
  "monsters (fst (update Playing jm level canvas g)) = map monsterLogic (monsters g)"
  by (simp add: update_def Let_def split: prod.splits option.splits)

text \<open>A scan of a list in two parts: the second part runs only if the first ran through.\<close>

lemma entityCollision_append:
  "entityCollision p (es1 @ es2) =
     (case entityCollision p es1 of
        (q, None) \<Rightarrow> entityCollision q es2
      | (q, Some s) \<Rightarrow> (q, Some s))"
  by (induction es1 arbitrary: p) auto

text \<open>The scene at the platform's edge, evaluated.\<close>

lemma edge_scanStart: "scanStart 1 edgeGame = edgeFalling"
  by (simp add: scanStart_def edgeGame_def edgePlayer_def edgeFalling_def noKeys_def
      playerPhysics_def horizontalMovement_def frictionLimits_def gravityJump_def
      applyVelocity_def worldBoundaries_def CONFIG_def Let_def)

lemma edge_hits_ground:
  "hitsEntity edgeFalling ground \<and> \<not> overlapX edgeFalling ground < overlapY edgeFalling ground
   \<and> p_vy edgeFalling > 0"
  by (simp add: hitsEntity_def intersects_def overlapX_def overlapY_def edgeFalling_def
      edgePlayer_def ground_def)

lemma edge_resolve: "resolvePlatform edgeFalling ground = edgeLanded"
  using edge_hits_ground
  by (simp add: resolvePlatform_def edgeFalling_def edgeLanded_def edgePlayer_def ground_def)

lemma edge_hits_spikes: "hitsEntity edgeFalling pitSpikes \<and> \<not> hitsEntity edgeLanded pitSpikes"
  by (simp add: hitsEntity_def intersects_def edgeFalling_def edgeLanded_def edgePlayer_def
      pitSpikes_def)

lemma edge_misses_ledge: "\<not> hitsEntity edgeFalling ledge \<and> \<not> hitsEntity edgeLanded ledge"
  by (simp add: hitsEntity_def intersects_def edgeFalling_def edgeLanded_def edgePlayer_def
      ledge_def)

lemma entity_types:
  "e_type ground = Platform" "e_type pitSpikes = Hazard" "e_type ledge = Platform"
  "e_type startMarker = Start" "e_type bareMonster = Monster" "e_type wall = Platform"
  by (simp_all add: ground_def pitSpikes_def ledge_def startMarker_def bareMonster_def wall_def)

lemma edge_scan_ground_first:
  "entityCollision edgeFalling [ground, pitSpikes] = (edgeLanded, None)"
  using edge_hits_ground edge_hits_spikes by (simp add: entity_types edge_resolve)

section \<open>Platform push-out\<close>

lemma hitsEntity_overlap: "hitsEntity p e \<longleftrightarrow> 0 < overlapX p e \<and> 0 < overlapY p e"
  unfolding hitsEntity_def intersects_def overlapX_def overlapY_def
  by (auto simp: abs_if field_simps)

lemma wall_overlaps:
  "hitsEntity (wallPlayer\<lparr>p_vx := v\<rparr>) wall
   \<and> overlapX (wallPlayer\<lparr>p_vx := v\<rparr>) wall = 1 \<and> overlapY (wallPlayer\<lparr>p_vx := v\<rparr>) wall = 50"
  by (simp add: hitsEntity_def intersects_def overlapX_def overlapY_def wallPlayer_def wall_def)

text \<open>
  Claim C2, as the spec states it, sends a player with \<open>vx = 0\<close> to the side it stands
  on. The code does not: the player at rest stands left of the wall, 1 deep in it; the
  left edge is 1 away, and the code moves the player 129 to the right, across the wall.
\<close>

theorem platform_tie_counterexample:
  "hitsEntity wallPlayer wall
   \<and> overlapX wallPlayer wall < overlapY wallPlayer wall
   \<and> p_vx wallPlayer = 0
   \<and> p_x wallPlayer + p_width wallPlayer / 2 < e_x wall + e_w wall / 2
   \<and> \<bar>(e_x wall - p_width wallPlayer) - p_x wallPlayer\<bar> = 1
   \<and> p_x (resolvePlatform wallPlayer wall) = e_x wall + e_w wall
   \<and> \<bar>p_x (resolvePlatform wallPlayer wall) - p_x wallPlayer\<bar> = 129"
  by (simp add: wallPlayer_def wall_def hitsEntity_def intersects_def
      overlapX_def overlapY_def resolvePlatform_def)

text \<open>
  Claim C2, amended. When the scan meets a platform the player overlaps, it goes on with
  the player pushed out along the axis of the smaller penetration depth, each depth the
  sum of the half extents minus the distance of the centres. If \<open>overlapX < overlapY\<close>
  the player goes to the platform's left edge when \<open>vx > 0\<close> and to its right edge when
  \<open>vx \<le> 0\<close> (so also when \<open>vx = 0\<close>, wherever the player stands), and \<open>vx\<close> becomes 0.
  Otherwise (ties included) the push is vertical and leaves \<open>x\<close> and \<open>vx\<close> alone.
\<close>

theorem platform_resolution:
  "e_type e = Platform \<and> hitsEntity p e \<longrightarrow>
     entityCollision p (e # rest) = entityCollision (resolvePlatform p e) rest
     \<and> overlapX p e = (p_width p + e_w e) / 2 - \<bar>(p_x p + p_width p / 2) - (e_x e + e_w e / 2)\<bar>
     \<and> overlapY p e = (p_height p + e_h e) / 2 - \<bar>(p_y p + p_height p / 2) - (e_y e + e_h e / 2)\<bar>
     \<and> 0 < overlapX p e \<and> 0 < overlapY p e
     \<and> (overlapX p e < overlapY p e \<longrightarrow>
          resolvePlatform p e =
            p\<lparr>p_x := (if p_vx p > 0 then e_x e - p_width p else e_x e + e_w e), p_vx := 0\<rparr>)
     \<and> (\<not> overlapX p e < overlapY p e \<longrightarrow>
          resolvePlatform p e =
            p\<lparr>p_y := (if p_vy p > 0 then e_y e - p_height p else e_y e + e_h e),
               isGrounded := (p_vy p > 0 \<or> isGrounded p), p_vy := 0\<rparr>)"
proof -
  have "hitsEntity p e \<Longrightarrow> 0 < overlapX p e \<and> 0 < overlapY p e"
    by (simp add: hitsEntity_overlap)
  moreover have "e_type e = Platform \<Longrightarrow> hitsEntity p e \<Longrightarrow>
      entityCollision p (e # rest) = entityCollision (resolvePlatform p e) rest"
    by simp
  moreover have "overlapX p e < overlapY p e \<Longrightarrow>
      resolvePlatform p e =
        p\<lparr>p_x := (if p_vx p > 0 then e_x e - p_width p else e_x e + e_w e), p_vx := 0\<rparr>"
    by (simp add: resolvePlatform_def)
  moreover have "\<not> overlapX p e < overlapY p e \<Longrightarrow>
      resolvePlatform p e =
        p\<lparr>p_y := (if p_vy p > 0 then e_y e - p_height p else e_y e + e_h e),
           isGrounded := (p_vy p > 0 \<or> isGrounded p), p_vy := 0\<rparr>"
    by (simp add: resolvePlatform_def)
  ultimately show ?thesis
    by (simp add: overlapX_def overlapY_def)
qed

theorem platform_resolution_witness:
  "e_type wall = Platform \<and> hitsEntity (wallPlayer\<lparr>p_vx := 3\<rparr>) wall
   \<and> overlapX (wallPlayer\<lparr>p_vx := 3\<rparr>) wall < overlapY (wallPlayer\<lparr>p_vx := 3\<rparr>) wall
   \<and> entityCollision (wallPlayer\<lparr>p_vx := 3\<rparr>) [wall] = (wallPlayer\<lparr>p_x := - 1\<rparr>, None)
   \<and> e_type ground = Platform \<and> hitsEntity edgeFalling ground
   \<and> \<not> overlapX edgeFalling ground < overlapY edgeFalling ground
   \<and> resolvePlatform edgeFalling ground = edgeLanded"
proof -
  have "resolvePlatform (wallPlayer\<lparr>p_vx := 3\<rparr>) wall = wallPlayer\<lparr>p_x := - 1\<rparr>"
    using platform_resolution [of wall "wallPlayer\<lparr>p_vx := 3\<rparr>" "[]"] wall_overlaps [of 3]
    by (simp add: entity_types wallPlayer_def wall_def)
  moreover have "entityCollision (wallPlayer\<lparr>p_vx := 3\<rparr>) [wall]
      = entityCollision (resolvePlatform (wallPlayer\<lparr>p_vx := 3\<rparr>) wall) []"
    using platform_resolution [of wall "wallPlayer\<lparr>p_vx := 3\<rparr>" "[]"] wall_overlaps [of 3]
    by (simp only: entity_types simp_thms)
  moreover have "resolvePlatform edgeFalling ground = edgeLanded"
    using platform_resolution [of ground edgeFalling "[]"] edge_hits_ground
    by (simp add: entity_types edgeFalling_def edgeLanded_def edgePlayer_def ground_def)
  ultimately show ?thesis
    using wall_overlaps [of 3] edge_hits_ground by (simp add: entity_types)
qed

section \<open>Grounding\<close>

lemma resolvePlatform_grounded:
  "isGrounded (resolvePlatform p e) \<longleftrightarrow>
     isGrounded p \<or> (\<not> overlapX p e < overlapY p e \<and> p_vy p > 0)"
  by (simp add: resolvePlatform_def)

lemma entityCollision_keeps_grounded:
  "isGrounded p \<Longrightarrow> isGrounded (fst (entityCollision p es))"
  by (induction es arbitrary: p) (auto simp: resolvePlatform_grounded)

lemma entityCollision_grounded_only_by_landing:
  assumes "isGrounded (fst (entityCollision p es))" and "\<not> isGrounded p"
  shows "\<exists>es1 e es2 q. es = es1 @ e # es2 \<and> entityCollision p es1 = (q, None)
           \<and> e_type e = Platform \<and> hitsEntity q e
           \<and> \<not> overlapX q e < overlapY q e \<and> p_vy q > 0"
  using assms
proof (induction es arbitrary: p)
  case Nil
  then show ?case by simp
next
  case (Cons a es)
  show ?case
  proof (cases "e_type a = Platform \<and> hitsEntity p a")
    case True
    show ?thesis
    proof (cases "\<not> overlapX p a < overlapY p a \<and> p_vy p > 0")
      case landing: True
      have "a # es = [] @ a # es \<and> entityCollision p [] = (p, None)" by simp
      with True landing show ?thesis by blast
    next
      case False
      with Cons.prems(2) have ng: "\<not> isGrounded (resolvePlatform p a)"
        by (simp add: resolvePlatform_grounded)
      from True Cons.prems(1) have "isGrounded (fst (entityCollision (resolvePlatform p a) es))"
        by simp
      from Cons.IH [OF this ng] obtain es1 e es2 q where
        h: "es = es1 @ e # es2" "entityCollision (resolvePlatform p a) es1 = (q, None)"
           "e_type e = Platform" "hitsEntity q e" "\<not> overlapX q e < overlapY q e" "p_vy q > 0"
        by blast
      from True h(2) have "entityCollision p (a # es1) = (q, None)" by simp
      moreover from h(1) have "a # es = (a # es1) @ e # es2" by simp
      ultimately show ?thesis using h(3-6) by blast
    qed
  next
    case False
    show ?thesis
    proof (cases "e_type a = Monster \<or> e_type a = Start \<or> \<not> hitsEntity p a")
      case skip: True
      then have step: "\<And>xs. entityCollision p (a # xs) = entityCollision p xs" by auto
      with Cons.prems(1) have "isGrounded (fst (entityCollision p es))" by simp
      from Cons.IH [OF this Cons.prems(2)] obtain es1 e es2 q where
        h: "es = es1 @ e # es2" "entityCollision p es1 = (q, None)"
           "e_type e = Platform" "hitsEntity q e" "\<not> overlapX q e < overlapY q e" "p_vy q > 0"
        by blast
      from step h(2) have "entityCollision p (a # es1) = (q, None)" by simp
      moreover from h(1) have "a # es = (a # es1) @ e # es2" by simp
      ultimately show ?thesis using h(3-6) by blast
    next
      case stop: False
      with False have "fst (entityCollision p (a # es)) = p"
        by (cases "e_type a") auto
      with Cons.prems show ?thesis by simp
    qed
  qed
qed

lemma entityCollision_landing_grounds:
  assumes "es = es1 @ e # es2" "entityCollision p es1 = (q, None)"
    "e_type e = Platform" "hitsEntity q e" "\<not> overlapX q e < overlapY q e" "p_vy q > 0"
  shows "isGrounded (fst (entityCollision p es))"
proof -
  have "entityCollision p es = entityCollision (resolvePlatform q e) es2"
    using assms by (simp add: entityCollision_append)
  moreover have "isGrounded (resolvePlatform q e)"
    using assms by (simp add: resolvePlatform_grounded)
  ultimately show ?thesis by (simp add: entityCollision_keeps_grounded)
qed

text \<open>
  Claim C3. The collision pass of a step starts with \<open>isGrounded\<close> false. A step that
  returns at the void check ends with it false. Any other step ends with it true exactly
  when the scan, somewhere in the level, met a platform the player (as the entities
  before had left it) overlapped, resolved it vertically and found \<open>vy > 0\<close>; that
  resolution puts the player's bottom on the platform's top and zeroes \<open>vy\<close>.
\<close>

theorem grounding:
  "\<not> isGrounded (scanStart jm g)
   \<and> (p_y (scanStart jm g) > 800 \<longrightarrow>
        \<not> isGrounded (player (fst (update Playing jm level canvas g))))
   \<and> (\<not> p_y (scanStart jm g) > 800 \<longrightarrow>
        (isGrounded (player (fst (update Playing jm level canvas g))) \<longleftrightarrow>
          (\<exists>es1 e es2 q. level = es1 @ e # es2
              \<and> entityCollision (scanStart jm g) es1 = (q, None)
              \<and> e_type e = Platform \<and> hitsEntity q e
              \<and> \<not> overlapX q e < overlapY q e \<and> p_vy q > 0)))
   \<and> (\<not> overlapX q e < overlapY q e \<and> p_vy q > 0 \<longrightarrow>
        resolvePlatform q e = q\<lparr>p_y := e_y e - p_height q, isGrounded := True, p_vy := 0\<rparr>)
   \<and> (isGrounded (resolvePlatform q e) \<longleftrightarrow>
        isGrounded q \<or> (\<not> overlapX q e < overlapY q e \<and> p_vy q > 0))"
proof -
  have "\<not> p_y (scanStart jm g) > 800 \<Longrightarrow>
      isGrounded (player (fst (update Playing jm level canvas g))) \<longleftrightarrow>
        (\<exists>es1 e es2 q. level = es1 @ e # es2
            \<and> entityCollision (scanStart jm g) es1 = (q, None)
            \<and> e_type e = Platform \<and> hitsEntity q e
            \<and> \<not> overlapX q e < overlapY q e \<and> p_vy q > 0)"
    using scanStart_not_grounded [of jm g]
      entityCollision_grounded_only_by_landing [of "scanStart jm g" level]
      entityCollision_landing_grounds [of level _ _ _ "scanStart jm g"]
    by (auto simp: update_player)
  moreover have "p_y (scanStart jm g) > 800 \<Longrightarrow>
      \<not> isGrounded (player (fst (update Playing jm level canvas g)))"
    by (simp add: update_player scanStart_not_grounded)
  moreover have "\<not> overlapX q e < overlapY q e \<and> p_vy q > 0 \<Longrightarrow>
      resolvePlatform q e = q\<lparr>p_y := e_y e - p_height q, isGrounded := True, p_vy := 0\<rparr>"
    by (simp add: resolvePlatform_def)
  ultimately show ?thesis
    using scanStart_not_grounded [of jm g] resolvePlatform_grounded [of q e] by blast
qed

theorem grounding_witness:
  "\<not> p_y (scanStart 1 edgeGame) > 800
   \<and> isGrounded (player (fst (update Playing 1 [ground, pitSpikes] None edgeGame)))
   \<and> (\<exists>es1 e es2 q. [ground, pitSpikes] = es1 @ e # es2
        \<and> entityCollision (scanStart 1 edgeGame) es1 = (q, None)
        \<and> e_type e = Platform \<and> hitsEntity q e
        \<and> \<not> overlapX q e < overlapY q e \<and> p_vy q > 0)
   \<and> \<not> overlapX edgeFalling ground < overlapY edgeFalling ground \<and> p_vy edgeFalling > 0
   \<and> resolvePlatform edgeFalling ground
        = edgeFalling\<lparr>p_y := e_y ground - p_height edgeFalling, isGrounded := True, p_vy := 0\<rparr>"
proof -
  have a: "\<not> p_y (scanStart 1 edgeGame) > 800"
    by (simp add: edge_scanStart edgeFalling_def)
  have b: "isGrounded (player (fst (update Playing 1 [ground, pitSpikes] None edgeGame)))"
    using a by (simp only: update_player edge_scanStart edge_scan_ground_first if_False fst_conv)
      (simp add: edgeLanded_def)
  from grounding [of 1 edgeGame "[ground, pitSpikes]" None edgeFalling ground] a b edge_hits_ground
  show ?thesis by blast
qed

section \<open>Monster patrol\<close>

lemma monsterLogic_fields:
  "patrolStart (monsterLogic m) = patrolStart m \<and> patrolEnd (monsterLogic m) = patrolEnd m
   \<and> speed (monsterLogic m) = speed m"
  by (simp add: monsterLogic_def Let_def)

lemma monsterLogic_x:
  "m_x (monsterLogic m) =
     (if m_x m + m_vx m \<le> patrolStart m then patrolStart m
      else if m_x m + m_vx m \<ge> patrolEnd m then patrolEnd m
      else m_x m + m_vx m)"
  by (simp add: monsterLogic_def Let_def)

lemma monsterLogic_vx:
  "m_vx (monsterLogic m) =
     (if m_x m + m_vx m \<le> patrolStart m then \<bar>speed m\<bar>
      else if m_x m + m_vx m \<ge> patrolEnd m then - \<bar>speed m\<bar>
      else m_vx m)"
  by (simp add: monsterLogic_def Let_def)

lemma monsterLogic_in_range:
  assumes "patrolStart m < patrolEnd m"
  shows "patrolStart m \<le> m_x (monsterLogic m) \<and> m_x (monsterLogic m) \<le> patrolEnd m"
  using assms by (simp add: monsterLogic_x)

lemma monsterLogic_speed:
  assumes "\<bar>m_vx m\<bar> = speed m"
  shows "\<bar>m_vx (monsterLogic m)\<bar> = speed m"
  using assms by (auto simp: monsterLogic_vx)

lemma patrol_iterate:
  assumes "patrolStart m < patrolEnd m" "patrolStart m \<le> m_x m" "m_x m \<le> patrolEnd m"
  shows "patrolStart ((monsterLogic ^^ n) m) = patrolStart m
         \<and> patrolEnd ((monsterLogic ^^ n) m) = patrolEnd m
         \<and> speed ((monsterLogic ^^ n) m) = speed m
         \<and> patrolStart m \<le> m_x ((monsterLogic ^^ n) m)
         \<and> m_x ((monsterLogic ^^ n) m) \<le> patrolEnd m
         \<and> (\<bar>m_vx m\<bar> = speed m \<longrightarrow> \<bar>m_vx ((monsterLogic ^^ n) m)\<bar> = speed m)"
proof (induction n)
  case 0
  from assms show ?case by simp
next
  case (Suc n)
  let ?k = "(monsterLogic ^^ n) m"
  have eq: "(monsterLogic ^^ Suc n) m = monsterLogic ?k" by simp
  from Suc assms(1) have "patrolStart ?k < patrolEnd ?k" by simp
  from monsterLogic_in_range [OF this] Suc monsterLogic_fields [of ?k] monsterLogic_speed [of ?k]
  show ?case unfolding eq by simp
qed

lemma patrol_turns:
  assumes "patrolStart k < patrolEnd k"
  shows "(m_x k + m_vx k \<le> patrolStart k \<longrightarrow>
            m_x (monsterLogic k) = patrolStart k \<and> m_vx (monsterLogic k) = \<bar>speed k\<bar>)
         \<and> (m_x k + m_vx k \<ge> patrolEnd k \<longrightarrow>
            m_x (monsterLogic k) = patrolEnd k \<and> m_vx (monsterLogic k) = - \<bar>speed k\<bar>)
         \<and> (patrolStart k < m_x (monsterLogic k) \<and> m_x (monsterLogic k) < patrolEnd k \<longrightarrow>
            m_x (monsterLogic k) = m_x k + m_vx k \<and> m_vx (monsterLogic k) = m_vx k)"
  using assms by (auto simp: monsterLogic_x monsterLogic_vx)

lemma initMonster_speed:
  assumes "\<And>s. e_speed e = Some s \<Longrightarrow> 0 \<le> s"
  shows "m_vx (initMonster e) = speed (initMonster e) \<and> 0 < speed (initMonster e)"
  using assms by (auto simp: initMonster_def js_or_def split: option.splits)

lemma patroller_steps:
  "(monsterLogic ^^ 2) patroller = patroller\<lparr>m_x := 99\<rparr>"
  "(monsterLogic ^^ 3) patroller = patroller\<lparr>m_x := 100, m_vx := - 2\<rparr>"
  by (simp_all add: numeral_2_eq_2 numeral_3_eq_3 monsterLogic_def patroller_def Let_def)

text \<open>
  Claim C4. Let a monster have \<open>patrolStart < patrolEnd\<close> and start with \<open>x\<close> between
  them. After any number of steps the bounds and the speed are what they were and \<open>x\<close>
  is still between the bounds; if \<open>|vx|\<close> was \<open>speed\<close> it still is, and a session starts
  so (with \<open>vx = speed > 0\<close>) unless the entity gives a negative speed, which the data
  model excludes. In the next step, a position that would reach or pass a bound is set to
  that bound, with \<open>vx = |speed|\<close> at \<open>patrolStart\<close> and \<open>vx = -|speed|\<close> at \<open>patrolEnd\<close>, and
  a monster that ends the step strictly between the bounds has moved by \<open>vx\<close> and kept
  its velocity. Every step of the game moves every monster so.
\<close>

theorem patrol_invariant:
  "patrolStart m < patrolEnd m \<and> patrolStart m \<le> m_x m \<and> m_x m \<le> patrolEnd m \<longrightarrow>
     patrolStart ((monsterLogic ^^ n) m) = patrolStart m
     \<and> patrolEnd ((monsterLogic ^^ n) m) = patrolEnd m
     \<and> speed ((monsterLogic ^^ n) m) = speed m
     \<and> patrolStart m \<le> m_x ((monsterLogic ^^ n) m)
     \<and> m_x ((monsterLogic ^^ n) m) \<le> patrolEnd m
     \<and> (\<bar>m_vx m\<bar> = speed m \<longrightarrow> \<bar>m_vx ((monsterLogic ^^ n) m)\<bar> = speed m)
     \<and> (m_x ((monsterLogic ^^ n) m) + m_vx ((monsterLogic ^^ n) m) \<le> patrolStart m \<longrightarrow>
          m_x ((monsterLogic ^^ Suc n) m) = patrolStart m
          \<and> m_vx ((monsterLogic ^^ Suc n) m) = \<bar>speed m\<bar>)
     \<and> (m_x ((monsterLogic ^^ n) m) + m_vx ((monsterLogic ^^ n) m) \<ge> patrolEnd m \<longrightarrow>
          m_x ((monsterLogic ^^ Suc n) m) = patrolEnd m
          \<and> m_vx ((monsterLogic ^^ Suc n) m) = - \<bar>speed m\<bar>)
     \<and> (patrolStart m < m_x ((monsterLogic ^^ Suc n) m)
          \<and> m_x ((monsterLogic ^^ Suc n) m) < patrolEnd m \<longrightarrow>
          m_x ((monsterLogic ^^ Suc n) m)
            = m_x ((monsterLogic ^^ n) m) + m_vx ((monsterLogic ^^ n) m)
          \<and> m_vx ((monsterLogic ^^ Suc n) m) = m_vx ((monsterLogic ^^ n) m))
     \<and> ((\<forall>s. e_speed e = Some s \<longrightarrow> 0 \<le> s) \<longrightarrow>
          \<bar>m_vx (initMonster e)\<bar> = speed (initMonster e))
     \<and> monsters (fst (update Playing jm level canvas g)) = map monsterLogic (monsters g)"
proof (intro impI)
  assume range: "patrolStart m < patrolEnd m \<and> patrolStart m \<le> m_x m \<and> m_x m \<le> patrolEnd m"
  let ?k = "(monsterLogic ^^ n) m"
  from range have r1: "patrolStart m < patrolEnd m" and r2: "patrolStart m \<le> m_x m"
    and r3: "m_x m \<le> patrolEnd m" by simp_all
  note inv = patrol_iterate [OF r1 r2 r3, of n]
  from inv have ps: "patrolStart ?k = patrolStart m" and pe: "patrolEnd ?k = patrolEnd m"
    and sp: "speed ?k = speed m" and lo: "patrolStart m \<le> m_x ?k" and hi: "m_x ?k \<le> patrolEnd m"
    and mag: "\<bar>m_vx m\<bar> = speed m \<longrightarrow> \<bar>m_vx ?k\<bar> = speed m"
    by simp_all
  from r1 have "patrolStart ?k < patrolEnd ?k" by (simp only: ps pe)
  note turn = patrol_turns [OF this, unfolded ps pe sp]
  note left = turn [THEN conjunct1]
    and right = turn [THEN conjunct2, THEN conjunct1]
    and inside = turn [THEN conjunct2, THEN conjunct2]
  have init: "(\<forall>s. e_speed e = Some s \<longrightarrow> 0 \<le> s) \<longrightarrow>
      \<bar>m_vx (initMonster e)\<bar> = speed (initMonster e)"
    using initMonster_speed [of e] by auto
  have eq: "(monsterLogic ^^ Suc n) m = monsterLogic ?k" by simp
  note moved = update_monsters [of jm level canvas g]
  show "patrolStart ?k = patrolStart m
     \<and> patrolEnd ?k = patrolEnd m
     \<and> speed ?k = speed m
     \<and> patrolStart m \<le> m_x ?k
     \<and> m_x ?k \<le> patrolEnd m
     \<and> (\<bar>m_vx m\<bar> = speed m \<longrightarrow> \<bar>m_vx ?k\<bar> = speed m)
     \<and> (m_x ?k + m_vx ?k \<le> patrolStart m \<longrightarrow>
          m_x ((monsterLogic ^^ Suc n) m) = patrolStart m
          \<and> m_vx ((monsterLogic ^^ Suc n) m) = \<bar>speed m\<bar>)
     \<and> (m_x ?k + m_vx ?k \<ge> patrolEnd m \<longrightarrow>
          m_x ((monsterLogic ^^ Suc n) m) = patrolEnd m
          \<and> m_vx ((monsterLogic ^^ Suc n) m) = - \<bar>speed m\<bar>)
     \<and> (patrolStart m < m_x ((monsterLogic ^^ Suc n) m)
          \<and> m_x ((monsterLogic ^^ Suc n) m) < patrolEnd m \<longrightarrow>
          m_x ((monsterLogic ^^ Suc n) m) = m_x ?k + m_vx ?k
          \<and> m_vx ((monsterLogic ^^ Suc n) m) = m_vx ?k)
     \<and> ((\<forall>s. e_speed e = Some s \<longrightarrow> 0 \<le> s) \<longrightarrow>
          \<bar>m_vx (initMonster e)\<bar> = speed (initMonster e))
     \<and> monsters (fst (update Playing jm level canvas g)) = map monsterLogic (monsters g)"
    unfolding eq
    by (intro conjI) (rule ps pe sp lo hi mag left right inside init moved)+
qed

theorem patrol_invariant_witness:
  "patrolStart patroller < patrolEnd patroller \<and> patrolStart patroller \<le> m_x patroller
   \<and> m_x patroller \<le> patrolEnd patroller \<and> \<bar>m_vx patroller\<bar> = speed patroller
   \<and> m_x ((monsterLogic ^^ 2) patroller) + m_vx ((monsterLogic ^^ 2) patroller)
        \<ge> patrolEnd patroller
   \<and> m_x ((monsterLogic ^^ 3) patroller) = patrolEnd patroller
   \<and> m_vx ((monsterLogic ^^ 3) patroller) = - \<bar>speed patroller\<bar>
   \<and> \<bar>m_vx ((monsterLogic ^^ 2) patroller)\<bar> = speed patroller
   \<and> e_speed bareMonster = None
   \<and> \<bar>m_vx (initMonster bareMonster)\<bar> = speed (initMonster bareMonster)"
proof -
  have pre: "patrolStart patroller < patrolEnd patroller \<and> patrolStart patroller \<le> m_x patroller
      \<and> m_x patroller \<le> patrolEnd patroller \<and> \<bar>m_vx patroller\<bar> = speed patroller"
    by (simp add: patroller_def)
  have turn: "m_x ((monsterLogic ^^ 2) patroller) + m_vx ((monsterLogic ^^ 2) patroller)
      \<ge> patrolEnd patroller"
    by (simp only: patroller_steps) (simp add: patroller_def)
  have bare: "e_speed bareMonster = None" by (simp add: bareMonster_def)
  have three: "Suc 2 = 3" by simp
  note inv = patrol_invariant [of patroller 2 bareMonster, unfolded three]
  from inv pre turn bare show ?thesis by simp
qed

section \<open>World boundaries and the void\<close>

lemma worldBoundaries_eq:
  "worldBoundaries q =
     q\<lparr>p_x := max 0 (min (levelWidth CONFIG) (p_x q)),
       p_vx := (if p_x q < 0 \<or> p_x q > levelWidth CONFIG then 0 else p_vx q)\<rparr>"
  by (simp add: worldBoundaries_def CONFIG_def Let_def)

lemma update_void:
  assumes "p_y (scanStart jm g) > 800"
  shows "update Playing jm level canvas g =
           (g\<lparr>frameCount := frameCount g + 1, player := scanStart jm g,
               monsters := map monsterLogic (monsters g)\<rparr>, Some Lost)"
  using assms by (simp add: update_def scanStart_def Let_def)

text \<open>
  Claim C5. After the physics and the reset of \<open>isGrounded\<close>, the player's \<open>x\<close> is
  clamped to the interval from 0 to \<open>levelWidth\<close> (7000), with \<open>vx\<close> zeroed exactly when
  the clamp moved it, and nothing else changed. If that player's \<open>y\<close> is above 800 the
  step requests \<open>lost\<close> and returns this very player: the result does not depend on
  the level or on the canvas, and the camera is the one the step found.
\<close>

theorem void_fall:
  "scanStart jm g =
     worldBoundaries ((playerPhysics (keys g) jm (player g))\<lparr>isGrounded := False\<rparr>)
   \<and> worldBoundaries q =
       q\<lparr>p_x := max 0 (min (levelWidth CONFIG) (p_x q)),
         p_vx := (if p_x q < 0 \<or> p_x q > levelWidth CONFIG then 0 else p_vx q)\<rparr>
   \<and> levelWidth CONFIG = 7000
   \<and> (p_y (scanStart jm g) > 800 \<longrightarrow>
        update Playing jm level canvas g =
          (g\<lparr>frameCount := frameCount g + 1, player := scanStart jm g,
             monsters := map monsterLogic (monsters g)\<rparr>, Some Lost))"
  using worldBoundaries_eq [of q] update_void [of jm g level canvas]
  by (simp add: scanStart_def CONFIG_def)

lemma deep_scanStart:
  "scanStart 1 (edgeGame\<lparr>player := edgePlayer\<lparr>p_x := - 20, p_y := 900\<rparr>\<rparr>)
     = edgePlayer\<lparr>p_x := 0, p_y := 906, p_vy := 6\<rparr>"
  by (simp add: scanStart_def edgeGame_def edgePlayer_def noKeys_def
      playerPhysics_def horizontalMovement_def frictionLimits_def gravityJump_def
      applyVelocity_def worldBoundaries_def CONFIG_def Let_def)

theorem void_fall_witness:
  "p_y (scanStart 1 (edgeGame\<lparr>player := edgePlayer\<lparr>p_x := - 20, p_y := 900\<rparr>\<rparr>)) > 800
   \<and> update Playing 1 [ground, pitSpikes] None
        (edgeGame\<lparr>player := edgePlayer\<lparr>p_x := - 20, p_y := 900\<rparr>\<rparr>)
      = (edgeGame\<lparr>frameCount := 1, player := edgePlayer\<lparr>p_x := 0, p_y := 906, p_vy := 6\<rparr>\<rparr>,
         Some Lost)"
proof -
  let ?g = "edgeGame\<lparr>player := edgePlayer\<lparr>p_x := - 20, p_y := 900\<rparr>\<rparr>"
  have a: "p_y (scanStart 1 ?g) > 800"
    by (simp add: deep_scanStart)
  note fall = void_fall [of 1 ?g edgePlayer "[ground, pitSpikes]" None]
  from fall a
  have "update Playing 1 [ground, pitSpikes] None ?g =
      (?g\<lparr>frameCount := frameCount ?g + 1, player := scanStart 1 ?g,
          monsters := map monsterLogic (monsters ?g)\<rparr>, Some Lost)"
    by (simp only: simp_thms)
  then show ?thesis using a by (simp only: deep_scanStart) (simp add: edgeGame_def)
qed

section \<open>Hazards\<close>

lemma entityCollision_untouched:
  assumes "\<forall>e\<in>set es. e_type e = Platform \<or> e_type e = Goal \<longrightarrow> \<not> hitsEntity p e"
  shows "entityCollision p es = (p, None) \<or> entityCollision p es = (p, Some Lost)"
  using assms
proof (induction es)
  case Nil
  then show ?case by simp
next
  case (Cons a es)
  then show ?case by (cases "e_type a") auto
qed

lemma entityCollision_hazard:
  assumes "e_type h = Hazard" "entityCollision p es1 = (q, None)" "hitsEntity q h"
  shows "entityCollision p (es1 @ h # es2) = (q, Some Lost)"
  using assms by (simp add: entityCollision_append)

lemma entityCollision_hazard_first:
  assumes "e_type h = Hazard" "hitsEntity p h"
    "\<forall>e\<in>set es1. e_type e = Platform \<or> e_type e = Goal \<longrightarrow> \<not> hitsEntity p e"
  shows "entityCollision p (es1 @ h # es2) = (p, Some Lost)"
  using entityCollision_untouched [OF assms(3)] assms(1,2)
  by (auto simp: entityCollision_append)

lemma update_hazard:
  assumes "e_type h = Hazard" "entityCollision (scanStart jm g) es1 = (q, None)" "hitsEntity q h"
  shows "snd (update Playing jm (es1 @ h # es2) canvas g) = Some Lost"
  using entityCollision_hazard [OF assms, of es2] by (simp add: update_status)

lemma entityCollision_goal:
  assumes "e_type w = Goal" "entityCollision p es1 = (q, None)" "hitsEntity q w"
  shows "entityCollision p (es1 @ w # rest) = (q, Some Won)"
  using assms by (simp add: entityCollision_append)

lemma update_hazard_first:
  assumes "e_type h = Hazard" "hitsEntity (scanStart jm g) h"
    "\<forall>e\<in>set es1. e_type e = Platform \<or> e_type e = Goal \<longrightarrow> \<not> hitsEntity (scanStart jm g) e"
  shows "snd (update Playing jm (es1 @ h # es2) canvas g) = Some Lost"
  using entityCollision_hazard_first [OF assms, of es2] by (simp add: update_status)

text \<open>
  Claim C6, as the spec states it, promises \<open>lost\<close> whenever the player overlaps a
  hazard as the scan begins. The scan goes through the level in order: the falling player
  at the platform's edge overlaps both the platform and the spikes in the pit beside it;
  the platform, first in the level, lifts the player out of the spikes, and the step
  requests nothing.
\<close>

theorem hazard_counterexample:
  "e_type pitSpikes = Hazard
   \<and> hitsEntity (scanStart 1 edgeGame) pitSpikes
   \<and> \<not> p_y (scanStart 1 edgeGame) > 800
   \<and> snd (update Playing 1 [ground, pitSpikes] None edgeGame) = None"
proof -
  have "snd (update Playing 1 [ground, pitSpikes] None edgeGame) = None"
    by (simp only: update_status edge_scanStart edge_scan_ground_first)
      (simp add: edgeFalling_def edgePlayer_def edgeGame_def monsterCollision_def)
  moreover have "\<not> p_y edgeFalling > 800"
    by (simp add: edgeFalling_def)
  ultimately show ?thesis
    using edge_hits_spikes by (simp add: edge_scanStart entity_types)
qed

text \<open>
  Claim C6, amended. When the scan reaches a hazard that the player, as the entities
  before it in the level have left it, overlaps, the scan stops there and the step
  requests \<open>lost\<close>, whatever follows in the level. In particular a step requests
  \<open>lost\<close> when the player overlaps a hazard as the scan begins and overlaps no platform
  and no goal that stands before that hazard in the level; the scan then returns the
  player as it found it. A goal that the scan reaches before the hazard, the player
  overlapping it, wins instead.
\<close>

theorem hazard_contact:
  "e_type h = Hazard \<longrightarrow>
     (entityCollision p es1 = (q, None) \<and> hitsEntity q h \<longrightarrow>
        entityCollision p (es1 @ h # es2) = (q, Some Lost))
     \<and> (hitsEntity p h
          \<and> (\<forall>e\<in>set es1. e_type e = Platform \<or> e_type e = Goal \<longrightarrow> \<not> hitsEntity p e) \<longrightarrow>
        entityCollision p (es1 @ h # es2) = (p, Some Lost))
     \<and> (hitsEntity (scanStart jm g) h
          \<and> (\<forall>e\<in>set es1. e_type e = Platform \<or> e_type e = Goal
                \<longrightarrow> \<not> hitsEntity (scanStart jm g) e) \<longrightarrow>
        snd (update Playing jm (es1 @ h # es2) canvas g) = Some Lost)
     \<and> (entityCollision (scanStart jm g) es1 = (q, None) \<and> hitsEntity q h \<longrightarrow>
        snd (update Playing jm (es1 @ h # es2) canvas g) = Some Lost)
     \<and> (e_type w = Goal \<and> entityCollision p es1 = (q, None) \<and> hitsEntity q w \<longrightarrow>
        entityCollision p (es1 @ w # h # es2) = (q, Some Won))"
  using entityCollision_hazard [of h p es1 q es2]
    entityCollision_hazard_first [of h p es1 es2]
    update_hazard_first [of h jm g es1 es2 canvas]
    update_hazard [of h jm g es1 q es2 canvas]
    entityCollision_goal [of w p es1 q "h # es2"]
  by simp

theorem hazard_contact_witness:
  "e_type pitSpikes = Hazard \<and> hitsEntity (scanStart 1 edgeGame) pitSpikes
   \<and> e_type ledge = Platform \<and> \<not> hitsEntity (scanStart 1 edgeGame) ledge
   \<and> e_type ground = Platform \<and> hitsEntity (scanStart 1 edgeGame) ground
   \<and> entityCollision (scanStart 1 edgeGame) [ledge] = (scanStart 1 edgeGame, None)
   \<and> entityCollision (scanStart 1 edgeGame) [ledge, pitSpikes, ground]
        = (scanStart 1 edgeGame, Some Lost)
   \<and> snd (update Playing 1 [ledge, pitSpikes, ground] None edgeGame) = Some Lost
   \<and> e_type goalFlag = Goal \<and> hitsEntity (scanStart 1 edgeGame) goalFlag
   \<and> entityCollision (scanStart 1 edgeGame) [ledge, goalFlag, pitSpikes, ground]
        = (scanStart 1 edgeGame, Some Won)"
proof -
  let ?p = "scanStart 1 edgeGame"
  have miss: "\<forall>e\<in>set [ledge]. e_type e = Platform \<or> e_type e = Goal \<longrightarrow> \<not> hitsEntity ?p e"
    using edge_misses_ledge by (simp add: edge_scanStart)
  have hit: "hitsEntity ?p pitSpikes" "hitsEntity ?p ground" "\<not> hitsEntity ?p ledge"
    using edge_hits_spikes edge_hits_ground edge_misses_ledge by (simp_all add: edge_scanStart)
  have flag: "e_type goalFlag = Goal" "hitsEntity ?p goalFlag"
    by (simp_all add: edge_scanStart)
      (simp_all add: goalFlag_def hitsEntity_def intersects_def edgeFalling_def edgePlayer_def)
  have through: "entityCollision ?p [ledge] = (?p, None)"
    using hit(3) by (simp add: entity_types)
  note contact = hazard_contact [of pitSpikes ?p "[ledge]" ?p "[ground]" 1 edgeGame None goalFlag]
  from contact through hit(1) entity_types(2)
  have scan: "entityCollision ?p ([ledge] @ pitSpikes # [ground]) = (?p, Some Lost)"
    by (simp only: simp_thms)
  from contact miss hit(1) entity_types(2)
  have step: "snd (update Playing 1 ([ledge] @ pitSpikes # [ground]) None edgeGame) = Some Lost"
    by (simp only: simp_thms)
  from contact through flag entity_types(2)
  have won: "entityCollision ?p ([ledge] @ goalFlag # pitSpikes # [ground]) = (?p, Some Won)"
    by (simp only: simp_thms)
  from scan step won through hit flag show ?thesis by (simp add: entity_types)
qed

section \<open>Horizontal speed under a held key\<close>

lemma playerPhysics_vx:
  "p_vx (playerPhysics ks jm p) = p_vx (frictionLimits (horizontalMovement ks p))"
  by (simp add: playerPhysics_def applyVelocity_def gravityJump_def Let_def)

lemma frictionLimits_vx:
  "p_vx (frictionLimits p) =
     max (- maxSpeed CONFIG) (min (maxSpeed CONFIG) (p_vx p * friction CONFIG))"
  by (simp add: frictionLimits_def Let_def CONFIG_def)

lemma horizontalMovement_vx:
  "p_vx (horizontalMovement ks p) =
     p_vx p - (if ks ''ArrowLeft'' then moveSpeed CONFIG else 0)
            + (if ks ''ArrowRight'' then moveSpeed CONFIG else 0)"
  by (simp add: horizontalMovement_def Let_def)

lemma vx_bounded: "\<bar>p_vx (playerPhysics ks jm p)\<bar> \<le> maxSpeed CONFIG"
  by (simp add: playerPhysics_vx frictionLimits_vx CONFIG_def)

text \<open>From a speed within the limits the clamp does not act while a key is held.\<close>

lemma vx_right_unclamped:
  assumes "ks ''ArrowRight''" "\<not> ks ''ArrowLeft''" "\<bar>p_vx p\<bar> \<le> 8"
  shows "p_vx (playerPhysics ks jm p) = (p_vx p + 4 / 5) * (17 / 20)"
proof -
  have "- 8 \<le> (p_vx p + 4 / 5) * (17 / 20)" "(p_vx p + 4 / 5) * (17 / 20) \<le> 8"
    using assms(3) by (simp_all add: algebra_simps abs_le_iff)
  then show ?thesis
    using assms(1,2)
    by (simp add: playerPhysics_vx frictionLimits_vx horizontalMovement_vx CONFIG_def)
qed

lemma vx_left_unclamped:
  assumes "ks ''ArrowLeft''" "\<not> ks ''ArrowRight''" "\<bar>p_vx p\<bar> \<le> 8"
  shows "p_vx (playerPhysics ks jm p) = (p_vx p - 4 / 5) * (17 / 20)"
proof -
  have "- 8 \<le> (p_vx p - 4 / 5) * (17 / 20)" "(p_vx p - 4 / 5) * (17 / 20) \<le> 8"
    using assms(3) by (simp_all add: algebra_simps abs_le_iff)
  then show ?thesis
    using assms(1,2)
    by (simp add: playerPhysics_vx frictionLimits_vx horizontalMovement_vx CONFIG_def)
qed

lemma vx_right_step:
  assumes "ks ''ArrowRight''" "\<not> ks ''ArrowLeft''" "\<bar>p_vx p\<bar> \<le> 8"
  shows "p_vx (playerPhysics ks jm p) - 68 / 15 = 17 / 20 * (p_vx p - 68 / 15)"
  unfolding vx_right_unclamped [OF assms] by (simp add: field_simps)

lemma vx_left_step:
  assumes "ks ''ArrowLeft''" "\<not> ks ''ArrowRight''" "\<bar>p_vx p\<bar> \<le> 8"
  shows "p_vx (playerPhysics ks jm p) + 68 / 15 = 17 / 20 * (p_vx p + 68 / 15)"
  unfolding vx_left_unclamped [OF assms] by (simp add: field_simps)

lemma vx_iterate_bounded:
  "\<bar>p_vx ((playerPhysics ks jm ^^ Suc n) p)\<bar> \<le> 8"
  using vx_bounded [of ks jm "(playerPhysics ks jm ^^ n) p"] by (simp add: CONFIG_def)

lemma vx_right_iterate:
  assumes "ks ''ArrowRight''" "\<not> ks ''ArrowLeft''"
  shows "p_vx ((playerPhysics ks jm ^^ Suc n) p) - 68 / 15
           = (17 / 20) ^ n * (p_vx (playerPhysics ks jm p) - 68 / 15)"
proof (induction n)
  case 0
  show ?case by simp
next
  case (Suc n)
  have "p_vx ((playerPhysics ks jm ^^ Suc (Suc n)) p) - 68 / 15
          = 17 / 20 * (p_vx ((playerPhysics ks jm ^^ Suc n) p) - 68 / 15)"
    using vx_right_step [OF assms vx_iterate_bounded [where ks = ks and jm = jm and n = n and p = p]]
    by simp
  with Suc show ?case by simp
qed

lemma vx_left_iterate:
  assumes "ks ''ArrowLeft''" "\<not> ks ''ArrowRight''"
  shows "p_vx ((playerPhysics ks jm ^^ Suc n) p) + 68 / 15
           = (17 / 20) ^ n * (p_vx (playerPhysics ks jm p) + 68 / 15)"
proof (induction n)
  case 0
  show ?case by simp
next
  case (Suc n)
  have "p_vx ((playerPhysics ks jm ^^ Suc (Suc n)) p) + 68 / 15
          = 17 / 20 * (p_vx ((playerPhysics ks jm ^^ Suc n) p) + 68 / 15)"
    using vx_left_step [OF assms vx_iterate_bounded [where ks = ks and jm = jm and n = n and p = p]]
    by simp
  with Suc show ?case by simp
qed

lemma geometric_to_zero: "(\<lambda>n. (17 / 20 :: real) ^ n * c) \<longlonglongrightarrow> 0"
proof -
  have "(\<lambda>n. (17 / 20 :: real) ^ n) \<longlonglongrightarrow> 0"
    by (rule LIMSEQ_realpow_zero) simp_all
  from tendsto_mult_right [OF this, of c] show ?thesis by simp
qed

lemma vx_right_limit:
  assumes "ks ''ArrowRight''" "\<not> ks ''ArrowLeft''"
  shows "(\<lambda>n. p_vx ((playerPhysics ks jm ^^ n) p)) \<longlonglongrightarrow> 68 / 15"
proof -
  let ?c = "p_vx (playerPhysics ks jm p) - 68 / 15"
  have "(\<lambda>n. (17 / 20) ^ n * ?c + 68 / 15) \<longlonglongrightarrow> 0 + 68 / 15"
    by (intro tendsto_add geometric_to_zero tendsto_const)
  moreover have "\<And>n. p_vx ((playerPhysics ks jm ^^ Suc n) p) = (17 / 20) ^ n * ?c + 68 / 15"
    using vx_right_iterate [OF assms, where jm = jm and p = p] by (simp add: algebra_simps)
  ultimately have "(\<lambda>n. p_vx ((playerPhysics ks jm ^^ Suc n) p)) \<longlonglongrightarrow> 68 / 15"
    by simp
  then show ?thesis by (rule LIMSEQ_offset [where k = 1, simplified])
qed

lemma vx_left_limit:
  assumes "ks ''ArrowLeft''" "\<not> ks ''ArrowRight''"
  shows "(\<lambda>n. p_vx ((playerPhysics ks jm ^^ n) p)) \<longlonglongrightarrow> - (68 / 15)"
proof -
  let ?c = "p_vx (playerPhysics ks jm p) + 68 / 15"
  have "(\<lambda>n. (17 / 20) ^ n * ?c - 68 / 15) \<longlonglongrightarrow> 0 - 68 / 15"
    by (intro tendsto_diff geometric_to_zero tendsto_const)
  moreover have "\<And>n. p_vx ((playerPhysics ks jm ^^ Suc n) p) = (17 / 20) ^ n * ?c - 68 / 15"
    using vx_left_iterate [OF assms, where jm = jm and p = p] by (simp add: algebra_simps)
  ultimately have "(\<lambda>n. p_vx ((playerPhysics ks jm ^^ Suc n) p)) \<longlonglongrightarrow> - (68 / 15)"
    by simp
  then show ?thesis by (rule LIMSEQ_offset [where k = 1, simplified])
qed

lemma held_keys:
  "heldRight ''ArrowRight''" "\<not> heldRight ''ArrowLeft''"
  "heldLeft ''ArrowLeft''" "\<not> heldLeft ''ArrowRight''"
  by (simp_all add: heldRight_def heldLeft_def)

text \<open>
  Claim C7, as the spec states it, has \<open>vx\<close> approach \<open>maxSpeed\<close> while the key is
  held. With the code's constants it does not: from rest, with the right arrow held and
  nothing in the way, the speeds 0, 0.68, 1.258, ... do not converge to 8.
\<close>

theorem held_speed_counterexample:
  "p_vx (initialPlayer []) = 0
   \<and> p_vx (playerPhysics heldRight 1 (initialPlayer [])) = 17 / 25
   \<and> p_vx ((playerPhysics heldRight 1 ^^ 2) (initialPlayer [])) = 629 / 500
   \<and> \<not> (\<lambda>n. p_vx ((playerPhysics heldRight 1 ^^ n) (initialPlayer [])))
          \<longlonglongrightarrow> maxSpeed CONFIG"
proof -
  have rest: "p_vx (initialPlayer []) = 0" by (simp add: initialPlayer_def)
  then have one: "p_vx (playerPhysics heldRight 1 (initialPlayer [])) = 17 / 25"
    using vx_right_unclamped [of heldRight "initialPlayer []" 1] by (simp add: held_keys)
  then have "p_vx (playerPhysics heldRight 1 (playerPhysics heldRight 1 (initialPlayer [])))
      = 629 / 500"
    using vx_right_unclamped [of heldRight "playerPhysics heldRight 1 (initialPlayer [])" 1]
    by (simp add: held_keys)
  then have two: "p_vx ((playerPhysics heldRight 1 ^^ 2) (initialPlayer [])) = 629 / 500"
    by (simp add: numeral_2_eq_2)
  have "\<not> (\<lambda>n. p_vx ((playerPhysics heldRight 1 ^^ n) (initialPlayer [])))
      \<longlonglongrightarrow> maxSpeed CONFIG"
  proof
    assume "(\<lambda>n. p_vx ((playerPhysics heldRight 1 ^^ n) (initialPlayer [])))
        \<longlonglongrightarrow> maxSpeed CONFIG"
    moreover have "(\<lambda>n. p_vx ((playerPhysics heldRight 1 ^^ n) (initialPlayer [])))
        \<longlonglongrightarrow> 68 / 15"
      by (rule vx_right_limit) (rule held_keys)+
    ultimately have "maxSpeed CONFIG = 68 / 15" by (rule LIMSEQ_unique)
    then show False by (simp add: CONFIG_def)
  qed
  with rest one two show ?thesis by (intro conjI)
qed

text \<open>
  Claim C7, amended. With \<open>moveSpeed = 0.8\<close>, \<open>friction = 0.85\<close> and \<open>maxSpeed = 8\<close>, the
  \<open>vx\<close> that the step adds to the position is never above \<open>maxSpeed\<close> in absolute value,
  whatever the keys and the speed before. While one arrow key is held and nothing zeroes
  \<open>vx\<close>, the speed of a player within the limits follows \<open>vx' = (vx \<plusminus> 0.8) * 0.85\<close>
  without the clamp acting, and converges to \<open>0.8 * 0.85 / (1 - 0.85) = 68/15\<close>
  (about 4.53, to the right) or to \<open>-68/15\<close> (to the left), which is below \<open>maxSpeed\<close>.
\<close>

theorem held_speed:
  "\<bar>p_vx (playerPhysics ks jm p)\<bar> \<le> maxSpeed CONFIG
   \<and> maxSpeed CONFIG = 8 \<and> moveSpeed CONFIG = 0.8 \<and> friction CONFIG = 0.85
   \<and> p_x (playerPhysics ks jm p) = p_x p + p_vx (playerPhysics ks jm p)
   \<and> (ks ''ArrowRight'' \<and> \<not> ks ''ArrowLeft'' \<longrightarrow>
        (\<bar>p_vx p\<bar> \<le> 8 \<longrightarrow> p_vx (playerPhysics ks jm p) = (p_vx p + 0.8) * 0.85)
        \<and> (\<lambda>n. p_vx ((playerPhysics ks jm ^^ n) p)) \<longlonglongrightarrow> 68 / 15)
   \<and> (ks ''ArrowLeft'' \<and> \<not> ks ''ArrowRight'' \<longrightarrow>
        (\<bar>p_vx p\<bar> \<le> 8 \<longrightarrow> p_vx (playerPhysics ks jm p) = (p_vx p - 0.8) * 0.85)
        \<and> (\<lambda>n. p_vx ((playerPhysics ks jm ^^ n) p)) \<longlonglongrightarrow> - (68 / 15))
   \<and> (68 / 15 :: real) < 8"
proof -
  have "p_x (playerPhysics ks jm p) = p_x p + p_vx (playerPhysics ks jm p)"
    by (simp add: playerPhysics_def applyVelocity_def gravityJump_def frictionLimits_def
        horizontalMovement_def Let_def)
  moreover have "ks ''ArrowRight'' \<and> \<not> ks ''ArrowLeft'' \<and> \<bar>p_vx p\<bar> \<le> 8 \<Longrightarrow>
      p_vx (playerPhysics ks jm p) = (p_vx p + 0.8) * 0.85"
    using vx_right_unclamped [of ks p jm] by simp
  moreover have "ks ''ArrowLeft'' \<and> \<not> ks ''ArrowRight'' \<and> \<bar>p_vx p\<bar> \<le> 8 \<Longrightarrow>
      p_vx (playerPhysics ks jm p) = (p_vx p - 0.8) * 0.85"
    using vx_left_unclamped [of ks p jm] by simp
  moreover have "maxSpeed CONFIG = 8 \<and> moveSpeed CONFIG = 0.8 \<and> friction CONFIG = 0.85"
    by (simp add: CONFIG_def)
  ultimately show ?thesis
    using vx_bounded [of ks jm p] vx_right_limit [of ks jm p] vx_left_limit [of ks jm p]
    by simp
qed

theorem held_speed_witness:
  "heldRight ''ArrowRight'' \<and> \<not> heldRight ''ArrowLeft''
   \<and> \<bar>p_vx (initialPlayer [])\<bar> \<le> 8
   \<and> p_vx (playerPhysics heldRight 1 (initialPlayer [])) = 17 / 25
   \<and> (\<lambda>n. p_vx ((playerPhysics heldRight 1 ^^ n) (initialPlayer []))) \<longlonglongrightarrow> 68 / 15
   \<and> heldLeft ''ArrowLeft'' \<and> \<not> heldLeft ''ArrowRight''
   \<and> (\<lambda>n. p_vx ((playerPhysics heldLeft 1 ^^ n) (initialPlayer []))) \<longlonglongrightarrow> - (68 / 15)"
proof -
  have rest: "p_vx (initialPlayer []) = 0" by (simp add: initialPlayer_def)
  note right = held_speed [of heldRight 1 "initialPlayer []"]
  note left = held_speed [of heldLeft 1 "initialPlayer []"]
  from right held_keys rest
  have "p_vx (playerPhysics heldRight 1 (initialPlayer [])) = 17 / 25"
    by simp
  moreover from right held_keys
  have "(\<lambda>n. p_vx ((playerPhysics heldRight 1 ^^ n) (initialPlayer []))) \<longlonglongrightarrow> 68 / 15"
    by (simp only: simp_thms)
  moreover from left held_keys
  have "(\<lambda>n. p_vx ((playerPhysics heldLeft 1 ^^ n) (initialPlayer []))) \<longlonglongrightarrow> - (68 / 15)"
    by (simp only: simp_thms)
  ultimately show ?thesis using held_keys rest by simp
qed

section \<open>Session reset\<close>

lemma find_unique: "filter P xs = [s] \<Longrightarrow> find P xs = Some s"
  by (induction xs) (auto split: if_splits)

lemma initialPlayer_start:
  assumes "filter (\<lambda>e. e_type e = Start) level = [s]"
  shows "p_x (initialPlayer level) = e_x s \<and> p_y (initialPlayer level) = e_y s"
  using find_unique [OF assms] by (simp add: initialPlayer_def)

lemma initialPlayer_fields:
  "p_vx (initialPlayer level) = 0 \<and> p_vy (initialPlayer level) = 0
   \<and> p_width (initialPlayer level) = 30 \<and> p_height (initialPlayer level) = 50
   \<and> \<not> isGrounded (initialPlayer level)
   \<and> facing (initialPlayer level) = 1 \<and> frame (initialPlayer level) = 0"
  by (simp add: initialPlayer_def Let_def)

text \<open>
  Claim C8. Entering \<open>playing\<close> from any two states of the refs gives the same player,
  the same monsters and the same camera: they are functions of the level alone. The
  player stands at the level's only start entity, with zero velocities, not grounded,
  facing right, at frame 0; the monsters are built from the level's monster entities;
  and entering \<open>playing\<close> a second time changes nothing.
\<close>

theorem restart_deterministic:
  "player (resetGame Playing level g1) = player (resetGame Playing level g2)
   \<and> monsters (resetGame Playing level g1) = monsters (resetGame Playing level g2)
   \<and> camera (resetGame Playing level g1) = camera (resetGame Playing level g2)
   \<and> player (resetGame Playing level g1) = initialPlayer level
   \<and> monsters (resetGame Playing level g1) = initMonsters level
   \<and> initMonsters level = map initMonster (filter (\<lambda>e. e_type e = Monster) level)
   \<and> p_vx (initialPlayer level) = 0 \<and> p_vy (initialPlayer level) = 0
   \<and> \<not> isGrounded (initialPlayer level)
   \<and> facing (initialPlayer level) = 1 \<and> frame (initialPlayer level) = 0
   \<and> (filter (\<lambda>e. e_type e = Start) level = [s] \<longrightarrow>
        p_x (initialPlayer level) = e_x s \<and> p_y (initialPlayer level) = e_y s)
   \<and> resetGame Playing level (resetGame Playing level g1) = resetGame Playing level g1"
  using initialPlayer_start [of level s] initialPlayer_fields [of level]
  by (simp add: resetGame_def initMonsters_def)

theorem restart_deterministic_witness:
  "filter (\<lambda>e. e_type e = Start) [ground, startMarker, bareMonster] = [startMarker]
   \<and> p_x (initialPlayer [ground, startMarker, bareMonster]) = 50
   \<and> p_y (initialPlayer [ground, startMarker, bareMonster]) = 400
   \<and> player (resetGame Playing [ground, startMarker, bareMonster] edgeGame)
        = player (resetGame Playing [ground, startMarker, bareMonster]
            (fst (update Playing 1 [ground, startMarker, bareMonster] None edgeGame)))
   \<and> monsters (resetGame Playing [ground, startMarker, bareMonster] edgeGame)
        = [initMonster bareMonster]"
proof -
  let ?level = "[ground, startMarker, bareMonster]"
  have one: "filter (\<lambda>e. e_type e = Start) ?level = [startMarker]"
    by (simp add: entity_types)
  note restart = restart_deterministic [of ?level edgeGame
      "fst (update Playing 1 ?level None edgeGame)" startMarker]
  from restart one
  have "p_x (initialPlayer ?level) = e_x startMarker \<and> p_y (initialPlayer ?level) = e_y startMarker"
    by (simp only: simp_thms)
  then have "p_x (initialPlayer ?level) = 50 \<and> p_y (initialPlayer ?level) = 400"
    by (simp add: startMarker_def)
  moreover from restart
  have "player (resetGame Playing ?level edgeGame)
      = player (resetGame Playing ?level (fst (update Playing 1 ?level None edgeGame)))"
    by (rule conjunct1)
  moreover have "initMonsters ?level = [initMonster bareMonster]"
    by (simp add: initMonsters_def entity_types)
  with restart [THEN conjunct2, THEN conjunct2, THEN conjunct2, THEN conjunct2, THEN conjunct1]
  have "monsters (resetGame Playing ?level edgeGame) = [initMonster bareMonster]"
    by simp
  ultimately show ?thesis using one by simp
qed

section \<open>Camera\<close>

lemma update_camera:
  assumes "update Playing jm level (Some c) g = (g', None)"
  shows "camera g' = cameraUpdate c (player g') (camera g)"
  using assms
  by (auto simp: update_def Let_def split: if_splits prod.splits option.splits)

lemma cameraTargetX_eq:
  "cameraTargetX c p =
     min (max 0 (p_x p + p_width p / 2 - cv_width c / 2)) (levelWidth CONFIG - cv_width c)"
  by (simp add: cameraTargetX_def Let_def min_def max_def)

lemma cameraTargetX_range:
  assumes "cv_width c \<le> levelWidth CONFIG"
  shows "0 \<le> cameraTargetX c p \<and> cameraTargetX c p \<le> levelWidth CONFIG - cv_width c"
  using assms by (simp add: cameraTargetX_eq)

lemma cameraTargetY_le: "cameraTargetY c p \<le> 800 - cv_height c"
  by (simp add: cameraTargetY_def Let_def)

text \<open>
  Claim C9. A step that runs to its end with a canvas moves the camera a tenth of the
  way to the horizontal target and a twentieth of the way to the vertical target, both
  computed from the player as the step leaves it. The horizontal target puts the
  player's middle at the middle of the viewport and is then clamped to the interval
  from 0 to \<open>levelWidth - width\<close>; the vertical target is at most \<open>800 - height\<close>.
\<close>

theorem camera_smoothing:
  "(update Playing jm level (Some c) g = (g', None) \<longrightarrow>
      cam_x (camera g')
        = cam_x (camera g) + (cameraTargetX c (player g') - cam_x (camera g)) * 0.1
      \<and> cam_y (camera g')
        = cam_y (camera g) + (cameraTargetY c (player g') - cam_y (camera g)) * 0.05)
   \<and> (0.05 :: real) < 0.1
   \<and> cameraTargetX c p
       = min (max 0 (p_x p + p_width p / 2 - cv_width c / 2)) (levelWidth CONFIG - cv_width c)
   \<and> (cv_width c \<le> levelWidth CONFIG \<longrightarrow>
        0 \<le> cameraTargetX c p \<and> cameraTargetX c p \<le> levelWidth CONFIG - cv_width c)
   \<and> cameraTargetY c p \<le> 800 - cv_height c"
proof -
  have "update Playing jm level (Some c) g = (g', None) \<Longrightarrow>
      cam_x (camera g')
        = cam_x (camera g) + (cameraTargetX c (player g') - cam_x (camera g)) * 0.1
      \<and> cam_y (camera g')
        = cam_y (camera g) + (cameraTargetY c (player g') - cam_y (camera g)) * 0.05"
    using update_camera [of jm level c g g'] by (simp add: cameraUpdate_def Let_def)
  then show ?thesis
    using cameraTargetX_eq [of c p] cameraTargetX_range [of c p] cameraTargetY_le [of c p]
    by simp
qed

lemma edge_update:
  "update Playing 1 [ground, pitSpikes] (Some \<lparr>cv_width = 800, cv_height = 600\<rparr>) edgeGame
     = (edgeGame\<lparr>frameCount := 1, player := edgeLanded,
                 camera := \<lparr>cam_x = 9, cam_y = 43 / 2\<rparr>\<rparr>, None)"
proof -
  have scan: "entityCollision (scanStart 1 edgeGame) [ground, pitSpikes] = (edgeLanded, None)"
    by (simp only: edge_scanStart edge_scan_ground_first)
  have low: "\<not> p_y (worldBoundaries
      ((playerPhysics (keys edgeGame) 1 (player edgeGame))\<lparr>isGrounded := False\<rparr>)) > 800"
    using edge_scanStart by (simp add: scanStart_def edgeFalling_def)
  have cam: "cameraUpdate \<lparr>cv_width = 800, cv_height = 600\<rparr> edgeLanded (camera edgeGame)
      = \<lparr>cam_x = 9, cam_y = 43 / 2\<rparr>"
    by (simp add: cameraUpdate_def cameraTargetX_def cameraTargetY_def edgeLanded_def
        edgePlayer_def edgeGame_def CONFIG_def Let_def)
  have none: "monsters edgeGame = []" "frameCount edgeGame = 0"
    by (simp_all add: edgeGame_def)
  show ?thesis
    unfolding update_def Let_def
    using low scan [unfolded scanStart_def] cam none
    by (simp add: monsterCollision_def)
qed

theorem camera_smoothing_witness:
  "update Playing 1 [ground, pitSpikes] (Some \<lparr>cv_width = 800, cv_height = 600\<rparr>) edgeGame
     = (edgeGame\<lparr>frameCount := 1, player := edgeLanded,
                 camera := \<lparr>cam_x = 9, cam_y = 43 / 2\<rparr>\<rparr>, None)
   \<and> cam_x (camera edgeGame) = 10 \<and> cam_y (camera edgeGame) = 20
   \<and> (9 :: real)
        = 10 + (cameraTargetX \<lparr>cv_width = 800, cv_height = 600\<rparr> edgeLanded - 10) * 0.1
   \<and> (43 / 2 :: real)
        = 20 + (cameraTargetY \<lparr>cv_width = 800, cv_height = 600\<rparr> edgeLanded - 20) * 0.05
   \<and> cameraTargetX \<lparr>cv_width = 800, cv_height = 600\<rparr> edgeLanded = 0
   \<and> cameraTargetY \<lparr>cv_width = 800, cv_height = 600\<rparr> edgeLanded = 50
   \<and> cv_width \<lparr>cv_width = 800, cv_height = 600\<rparr> \<le> levelWidth CONFIG"
proof -
  let ?c = "\<lparr>cv_width = 800, cv_height = 600\<rparr>"
  let ?g = "edgeGame\<lparr>frameCount := 1, player := edgeLanded,
      camera := \<lparr>cam_x = 9, cam_y = 43 / 2\<rparr>\<rparr>"
  note smooth = camera_smoothing [of 1 "[ground, pitSpikes]" ?c edgeGame ?g edgeLanded]
  from smooth edge_update
  have "cam_x (camera ?g)
        = cam_x (camera edgeGame) + (cameraTargetX ?c (player ?g) - cam_x (camera edgeGame)) * 0.1
      \<and> cam_y (camera ?g)
        = cam_y (camera edgeGame) + (cameraTargetY ?c (player ?g) - cam_y (camera edgeGame)) * 0.05"
    by (simp only: simp_thms)
  moreover have start: "cam_x (camera edgeGame) = 10 \<and> cam_y (camera edgeGame) = 20"
    by (simp add: edgeGame_def)
  ultimately have moved: "(9 :: real) = 10 + (cameraTargetX ?c edgeLanded - 10) * 0.1
      \<and> (43 / 2 :: real) = 20 + (cameraTargetY ?c edgeLanded - 20) * 0.05"
    by simp
  have targets: "cameraTargetX ?c edgeLanded = 0 \<and> cameraTargetY ?c edgeLanded = 50"
    by (simp add: cameraTargetX_def cameraTargetY_def edgeLanded_def edgePlayer_def
        CONFIG_def Let_def)
  have wide: "cv_width ?c \<le> levelWidth CONFIG" by (simp add: CONFIG_def)
  from start moved targets
  show ?thesis
    by (intro conjI) (rule edge_update wide | (elim conjE, assumption))+
qed

section \<open>Monster defaults\<close>

lemma initMonster_defaults:
  "(e_speed e = None \<longrightarrow> speed (initMonster e) = 2)
   \<and> (e_patrolStart e = None \<longrightarrow> patrolStart (initMonster e) = e_x e - 100)
   \<and> (e_patrolEnd e = None \<longrightarrow> patrolEnd (initMonster e) = e_x e + 100)
   \<and> m_vx (initMonster e) = speed (initMonster e)"
  by (simp add: initMonster_def js_or_def)

lemma initMonster_bounds:
  assumes "e_patrolStart e = None \<or> e_patrolEnd e = None"
    and "\<And>v. e_patrolStart e = Some v \<Longrightarrow> v \<le> e_x e"
    and "\<And>v. e_patrolEnd e = Some v \<Longrightarrow> e_x e \<le> v"
  shows "patrolStart (initMonster e) < patrolEnd (initMonster e)"
  using assms by (auto simp: initMonster_def js_or_def split: option.splits)

lemma initMonsters_members:
  "m \<in> set (initMonsters level) \<Longrightarrow> m_vx m = speed m"
  by (auto simp: initMonsters_def initMonster_def)

text \<open>
  Claim C10. For a monster entity, an omitted \<open>speed\<close> becomes 2, an omitted
  \<open>patrolStart\<close> becomes \<open>x - 100\<close> and an omitted \<open>patrolEnd\<close> becomes \<open>x + 100\<close>. Every
  monster of a session starts with \<open>vx = speed\<close>. So the initial state has
  \<open>patrolStart < patrolEnd\<close> as soon as a bound is omitted (a bound that is given lying
  on its side of \<open>x\<close>), and \<open>speed > 0\<close>, hence a monster moving right, as soon as the
  speed is omitted or given and not negative.
\<close>

theorem monster_defaults:
  "(e_speed e = None \<longrightarrow> speed (initMonster e) = 2)
   \<and> (e_patrolStart e = None \<longrightarrow> patrolStart (initMonster e) = e_x e - 100)
   \<and> (e_patrolEnd e = None \<longrightarrow> patrolEnd (initMonster e) = e_x e + 100)
   \<and> m_vx (initMonster e) = speed (initMonster e)
   \<and> (\<forall>m\<in>set (initMonsters level). m_vx m = speed m)
   \<and> (e_patrolStart e = None \<and> e_patrolEnd e = None \<longrightarrow>
        patrolStart (initMonster e) < patrolEnd (initMonster e))
   \<and> ((e_patrolStart e = None \<or> e_patrolEnd e = None)
        \<and> (\<forall>v. e_patrolStart e = Some v \<longrightarrow> v \<le> e_x e)
        \<and> (\<forall>v. e_patrolEnd e = Some v \<longrightarrow> e_x e \<le> v) \<longrightarrow>
        patrolStart (initMonster e) < patrolEnd (initMonster e))
   \<and> (e_speed e = None \<longrightarrow> 0 < speed (initMonster e) \<and> 0 < m_vx (initMonster e))
   \<and> ((\<forall>s. e_speed e = Some s \<longrightarrow> 0 \<le> s) \<longrightarrow>
        0 < speed (initMonster e) \<and> 0 < m_vx (initMonster e))"
proof -
  have "(e_patrolStart e = None \<or> e_patrolEnd e = None)
        \<and> (\<forall>v. e_patrolStart e = Some v \<longrightarrow> v \<le> e_x e)
        \<and> (\<forall>v. e_patrolEnd e = Some v \<longrightarrow> e_x e \<le> v) \<Longrightarrow>
        patrolStart (initMonster e) < patrolEnd (initMonster e)"
    using initMonster_bounds [of e] by blast
  moreover have "(\<forall>s. e_speed e = Some s \<longrightarrow> 0 \<le> s) \<Longrightarrow>
        0 < speed (initMonster e) \<and> 0 < m_vx (initMonster e)"
    using initMonster_speed [of e] by auto
  moreover have "\<forall>m\<in>set (initMonsters level). m_vx m = speed m"
    using initMonsters_members by blast
  ultimately show ?thesis
    using initMonster_defaults [of e] by auto
qed

theorem monster_defaults_witness:
  "e_speed bareMonster = None \<and> e_patrolStart bareMonster = None
   \<and> e_patrolEnd bareMonster = None
   \<and> speed (initMonster bareMonster) = 2
   \<and> patrolStart (initMonster bareMonster) = 200
   \<and> patrolEnd (initMonster bareMonster) = 400
   \<and> m_vx (initMonster bareMonster) = 2
   \<and> patrolStart (initMonster bareMonster) < patrolEnd (initMonster bareMonster)
   \<and> initMonster bareMonster \<in> set (initMonsters [ground, bareMonster])"
proof -
  have omitted: "e_speed bareMonster = None" "e_patrolStart bareMonster = None"
    "e_patrolEnd bareMonster = None" "e_x bareMonster = 300"
    by (simp_all add: bareMonster_def)
  have member: "initMonster bareMonster \<in> set (initMonsters [ground, bareMonster])"
    by (simp add: initMonsters_def entity_types)
  from monster_defaults [of bareMonster "[ground, bareMonster]"] omitted member
  show ?thesis by simp
qed

end
